theory Spec2Isabelle
  imports Main "HOL-Library.Word"
begin

section \<open>The operating system as rotwriter.go uses it\<close>

text \<open>
  The writer is a client of Go's \<^verbatim>\<open>os\<close>, \<^verbatim>\<open>path/filepath\<close>, \<^verbatim>\<open>strings\<close> and \<^verbatim>\<open>time\<close>
  packages. Their part is modelled here as far as \<^verbatim>\<open>rotwriter.go\<close> calls them: a directory
  from names to inodes, the content of every inode, and a log of the calls made, oldest
  first. What the operating system decides on its own (the clock, a failing system call,
  a full disk) is the \<open>env\<close> of one call.
\<close>

type_synonym byte = "8 word"

datatype error =
    ErrInvalid       \<comment> \<open>\<^verbatim>\<open>os.ErrInvalid\<close>: a method called on a nil \<^verbatim>\<open>*os.File\<close>\<close>
  | ErrClosed        \<comment> \<open>\<^verbatim>\<open>os.ErrClosed\<close>: a method called on a closed file\<close>
  | ENOENT           \<comment> \<open>no such file or directory\<close>
  | Errno nat        \<comment> \<open>any other error of a system call\<close>
  | NilDeref         \<comment> \<open>the run-time panic of \<^verbatim>\<open>Name\<close> on a nil \<^verbatim>\<open>*os.File\<close>\<close>

datatype flag = O_CREATE | O_APPEND | O_WRONLY

text \<open>An \<^verbatim>\<open>*os.File\<close> is \<open>None\<close> (nil) or an object with the name it was opened under.\<close>

record File =
  fname :: string
  ino :: nat
  appendmode :: bool
  pos :: nat
  closed :: bool

datatype call =
    CallStat
  | CallClose
  | CallRename string string
  | CallOpenFile string "flag set"
  | CallWrite "byte list"

record os_state =
  names :: "string \<rightharpoonup> nat"
  inodes :: "nat \<Rightarrow> byte list"
  fresh :: nat
  calls :: "call list"

record time =
  year :: nat
  month :: nat
  day :: nat
  hour :: nat
  minute :: nat
  second :: nat

text \<open>
  \<open>write_room = Some (k, e)\<close>: the device takes \<open>k\<close> more bytes and answers \<open>e\<close> to a
  write that needs more; \<open>None\<close>: every write is taken whole.
\<close>

record env =
  now :: time
  stat_fault :: "error option"
  rename_fault :: "error option"
  open_fault :: "error option"
  write_room :: "(nat \<times> error) option"

definition logcall :: "call \<Rightarrow> os_state \<Rightarrow> os_state" where
  "logcall c w = w\<lparr>calls := calls w @ [c]\<rparr>"

text \<open>The content of the file a name stands for, if the name exists.\<close>

definition content :: "os_state \<Rightarrow> string \<Rightarrow> byte list option" where
  "content w name = map_option (inodes w) (names w name)"

text \<open>
  \<^verbatim>\<open>os.OpenFile(name, flags, 0666)\<close>: the file and a nil error, or nil and the error.
  Without \<^verbatim>\<open>O_TRUNC\<close> an existing file keeps its content; the offset starts at 0.
\<close>

definition OpenFile ::
  "env \<Rightarrow> string \<Rightarrow> flag set \<Rightarrow> os_state \<Rightarrow> File option \<times> error option \<times> os_state" where
  "OpenFile e name flags w0 =
     (let w = logcall (CallOpenFile name flags) w0 in
      case open_fault e of
        Some err \<Rightarrow> (None, Some err, w)
      | None \<Rightarrow>
          (case names w name of
             Some i \<Rightarrow>
               (Some \<lparr>fname = name, ino = i, appendmode = (O_APPEND \<in> flags),
                      pos = 0, closed = False\<rparr>, None, w)
           | None \<Rightarrow>
               if O_CREATE \<in> flags
               then (Some \<lparr>fname = name, ino = fresh w, appendmode = (O_APPEND \<in> flags),
                            pos = 0, closed = False\<rparr>, None,
                     w\<lparr>names := (names w)(name \<mapsto> fresh w),
                       inodes := (inodes w)(fresh w := []),
                       fresh := Suc (fresh w)\<rparr>)
               else (None, Some ENOENT, w)))"

text \<open>\<^verbatim>\<open>(*File).Stat\<close>, reduced to the size it reports (an \<^verbatim>\<open>int64\<close>).\<close>

definition Stat :: "env \<Rightarrow> File option \<Rightarrow> os_state \<Rightarrow> (error + int) \<times> os_state" where
  "Stat e file w0 =
     (let w = logcall CallStat w0 in
      case file of
        None \<Rightarrow> (Inl ErrInvalid, w)
      | Some f \<Rightarrow>
          if closed f then (Inl ErrClosed, w)
          else (case stat_fault e of
                  Some err \<Rightarrow> (Inl err, w)
                | None \<Rightarrow> (Inr (int (length (inodes w (ino f)))), w)))"

text \<open>\<^verbatim>\<open>(*File).Close\<close>: the error, and the file object as the call leaves it.\<close>

definition Close :: "File option \<Rightarrow> os_state \<Rightarrow> error option \<times> File option \<times> os_state" where
  "Close file w0 =
     (let w = logcall CallClose w0 in
      case file of
        None \<Rightarrow> (Some ErrInvalid, None, w)
      | Some f \<Rightarrow>
          if closed f then (Some ErrClosed, Some f, w)
          else (None, Some (f\<lparr>closed := True\<rparr>), w))"

text \<open>\<^verbatim>\<open>(*File).Name\<close>: the name given to \<^verbatim>\<open>OpenFile\<close>; a nil receiver panics.\<close>

definition Name :: "File option \<Rightarrow> error + string" where
  "Name file = (case file of None \<Rightarrow> Inl NilDeref | Some f \<Rightarrow> Inr (fname f))"

text \<open>
  \<^verbatim>\<open>os.Rename(oldpath, newpath)\<close> is \<^verbatim>\<open>rename(2)\<close>. The directory after a rename that
  succeeds, \<open>oldpath\<close> being a name of inode \<open>i\<close>: when \<open>newpath\<close> is a name of the
  same inode already (a hard link, or \<open>oldpath\<close> itself), nothing changes; otherwise
  \<open>oldpath\<close> is gone and \<open>newpath\<close> names \<open>i\<close>, in place of what it named before.
\<close>

definition rename_dir :: "(string \<rightharpoonup> nat) \<Rightarrow> string \<Rightarrow> string \<Rightarrow> nat \<Rightarrow> (string \<rightharpoonup> nat)" where
  "rename_dir dir oldpath newpath i =
     (if dir newpath = Some i then dir else (dir(oldpath := None))(newpath \<mapsto> i))"

definition Rename :: "env \<Rightarrow> string \<Rightarrow> string \<Rightarrow> os_state \<Rightarrow> error option \<times> os_state" where
  "Rename e oldpath newpath w0 =
     (let w = logcall (CallRename oldpath newpath) w0 in
      case rename_fault e of
        Some err \<Rightarrow> (Some err, w)
      | None \<Rightarrow>
          (case names w oldpath of
             None \<Rightarrow> (Some ENOENT, w)
           | Some i \<Rightarrow> (None, w\<lparr>names := rename_dir (names w) oldpath newpath i\<rparr>)))"

text \<open>
  \<^verbatim>\<open>(*File).Write\<close>: with \<^verbatim>\<open>O_APPEND\<close> the bytes go to the end of the file, otherwise to the
  offset of the handle, over what is there (a gap before the offset reads as zeros; a
  write of no bytes has no effect on the file).
\<close>

definition write_at :: "byte list \<Rightarrow> nat \<Rightarrow> byte list \<Rightarrow> byte list" where
  "write_at old at bs =
     (if bs = [] then old
      else take at old @ replicate (at - length old) 0 @ bs @ drop (at + length bs) old)"

definition FileWrite ::
  "env \<Rightarrow> File option \<Rightarrow> byte list \<Rightarrow> os_state
     \<Rightarrow> (nat \<times> error option) \<times> File option \<times> os_state" where
  "FileWrite e file b w0 =
     (let w = logcall (CallWrite b) w0 in
      case file of
        None \<Rightarrow> ((0, Some ErrInvalid), None, w)
      | Some f \<Rightarrow>
          if closed f then ((0, Some ErrClosed), Some f, w)
          else
            (let n = (case write_room e of None \<Rightarrow> length b | Some (k, _) \<Rightarrow> min k (length b));
                 err = (case write_room e of
                          None \<Rightarrow> None
                        | Some (k, er) \<Rightarrow> if k < length b then Some er else None);
                 old = inodes w (ino f);
                 at = (if appendmode f then length old else pos f)
             in ((n, err), Some (f\<lparr>pos := at + n\<rparr>),
                 w\<lparr>inodes := (inodes w)(ino f := write_at old at (take n b))\<rparr>)))"

subsection \<open>\<^verbatim>\<open>filepath.Ext\<close>, \<^verbatim>\<open>strings.TrimSuffix\<close>, \<^verbatim>\<open>time.Format\<close>\<close>

text \<open>
  \<^verbatim>\<open>for i := len(path) - 1; i >= 0 && !os.IsPathSeparator(path[i]); i--\<close>, with
  \<open>Suc i\<close> for the loop's \<open>i\<close> and the separator of Unix.
\<close>

fun ExtFrom :: "string \<Rightarrow> nat \<Rightarrow> string" where
  "ExtFrom path 0 = []"
| "ExtFrom path (Suc i) =
     (if path ! i = CHR ''/'' then []
      else if path ! i = CHR ''.'' then drop i path
      else ExtFrom path i)"

definition Ext :: "string \<Rightarrow> string" where
  "Ext path = ExtFrom path (length path)"

definition HasSuffix :: "string \<Rightarrow> string \<Rightarrow> bool" where
  "HasSuffix s suffix \<longleftrightarrow>
     length s \<ge> length suffix \<and> drop (length s - length suffix) s = suffix"

definition TrimSuffix :: "string \<Rightarrow> string \<Rightarrow> string" where
  "TrimSuffix s suffix =
     (if HasSuffix s suffix then take (length s - length suffix) s else s)"

text \<open>The decimal digits of a number, and \<^verbatim>\<open>appendInt\<close>'s zero padding to a width.\<close>

fun decimal :: "nat \<Rightarrow> string" where
  "decimal n =
     (if n < 10 then [''0123456789'' ! n]
      else decimal (n div 10) @ [''0123456789'' ! (n mod 10)])"

declare decimal.simps [simp del]

definition appendInt :: "nat \<Rightarrow> nat \<Rightarrow> string" where
  "appendInt x width = replicate (width - length (decimal x)) CHR ''0'' @ decimal x"

text \<open>\<^verbatim>\<open>t.Format("20060102-150405")\<close>\<close>

definition Format :: "time \<Rightarrow> string" where
  "Format t =
     appendInt (year t) 4 @ appendInt (month t) 2 @ appendInt (day t) 2 @ ''-'' @
     appendInt (hour t) 2 @ appendInt (minute t) 2 @ appendInt (second t) 2"

section \<open>The rotating writer\<close>

definition DefaultSize :: int where
  "DefaultSize = 10 * 1024 * 1024"

text \<open>
  \<open>mutex\<close> is \<open>True\<close> while the \<^verbatim>\<open>sync.Mutex\<close> is held; its zero value is unlocked.
  \<open>maxSize\<close> is an \<^verbatim>\<open>int64\<close>; it is only compared and stored, never computed with, so it
  is an \<open>int\<close> here.
\<close>

record rotateWriter =
  mutex :: bool
  filename :: string
  "file" :: "File option"
  maxSize :: int

definition New ::
  "env \<Rightarrow> string \<Rightarrow> int \<Rightarrow> os_state \<Rightarrow> (rotateWriter option \<times> error option) \<times> os_state" where
  "New e filename0 maxSize0 w =
     (let maxSize1 = (if maxSize0 \<le> 0 then DefaultSize else maxSize0);
          (file0, err, w1) = OpenFile e filename0 {O_CREATE, O_APPEND, O_WRONLY} w
      in if err \<noteq> None then ((None, err), w1)
         else ((Some \<lparr>mutex = False, filename = filename0, file = file0, maxSize = maxSize1\<rparr>,
                None), w1))"

text \<open>
  The archive name of lines 58 to 60:
  \<^verbatim>\<open>fmt.Sprintf("%s-%s%s", base, time.Now().Format("20060102-150405"), ext)\<close>.
\<close>

definition archive_name :: "string \<Rightarrow> time \<Rightarrow> string" where
  "archive_name fileName t =
     (let ext = Ext fileName;
          base = TrimSuffix fileName ext
      in base @ ''-'' @ Format t @ ext)"

definition Write ::
  "env \<Rightarrow> rotateWriter \<Rightarrow> byte list \<Rightarrow> os_state
     \<Rightarrow> (nat \<times> error option) \<times> rotateWriter \<times> os_state" where
  "Write e rw p w =
     (let (stat, w1) = Stat e (file rw) w in
      if (case stat of Inl _ \<Rightarrow> False | Inr sz \<Rightarrow> sz > maxSize rw) then
        (let (_, f1, w2) = Close (file rw) w1;
             rw1 = rw\<lparr>file := f1\<rparr>
         in case Name (file rw1) of
              Inl panic \<Rightarrow> ((0, Some panic), rw1, w2)
            | Inr fileName \<Rightarrow>
                (let name = archive_name fileName (now e);
                     (err, w3) = Rename e fileName name w2
                 in if err \<noteq> None then ((0, err), rw1, w3)
                    else
                      (let (f2, err2, w4) = OpenFile e (filename rw1) {O_CREATE, O_WRONLY} w3;
                           rw2 = rw1\<lparr>file := f2\<rparr>
                       in if err2 \<noteq> None then ((0, err2), rw2, w4)
                          else
                            (let (res, f3, w5) = FileWrite e (file rw2) p w4
                             in (res, rw2\<lparr>file := f3\<rparr>, w5)))))
      else
        (let (res, f3, w5) = FileWrite e (file rw) p w1
         in (res, rw\<lparr>file := f3\<rparr>, w5)))"

text \<open>
  The extension in the specification's words, to compare \<open>Ext\<close> with: within the last
  element of the path (what follows the last separator), the last dot and what follows
  it; empty if that element has no dot.
\<close>

definition spec_extension :: "string \<Rightarrow> string" where
  "spec_extension nm =
     (let seg = takeWhile (\<lambda>c. c \<noteq> CHR ''/'') (rev nm)
      in if CHR ''.'' \<in> set seg
         then CHR ''.'' # rev (takeWhile (\<lambda>c. c \<noteq> CHR ''.'') seg)
         else [])"

section \<open>Observing a run\<close>

text \<open>The calls made between two states of the operating system.\<close>

definition calls_since :: "os_state \<Rightarrow> os_state \<Rightarrow> call list" where
  "calls_since w w' = drop (length (calls w)) (calls w')"

fun is_rename :: "call \<Rightarrow> bool" where
  "is_rename (CallRename _ _) = True"
| "is_rename _ = False"

text \<open>A call of \<open>Write\<close> has rotated when it has called \<^verbatim>\<open>os.Rename\<close>.\<close>

definition rotated :: "os_state \<Rightarrow> os_state \<Rightarrow> bool" where
  "rotated w w' \<longleftrightarrow> list_ex is_rename (calls_since w w')"

text \<open>The instance has a usable handle: not nil, not closed.\<close>

definition usable :: "rotateWriter \<Rightarrow> bool" where
  "usable rw \<longleftrightarrow> (case file rw of None \<Rightarrow> False | Some f \<Rightarrow> \<not> closed f)"

text \<open>
  The test of line 55 at the start of a call: the size query on the current file succeeds
  and reports more than \<open>maxSize\<close>.
\<close>

definition over :: "env \<Rightarrow> rotateWriter \<Rightarrow> os_state \<Rightarrow> bool" where
  "over e rw w \<longleftrightarrow>
     (case fst (Stat e (file rw) w) of Inl _ \<Rightarrow> False | Inr sz \<Rightarrow> sz > maxSize rw)"

text \<open>
  The call rotates, its rename succeeds, and its reopen fails.
\<close>

definition reopen_fails :: "env \<Rightarrow> rotateWriter \<Rightarrow> os_state \<Rightarrow> bool" where
  "reopen_fails e rw w \<longleftrightarrow>
     over e rw w \<and>
     (case file rw of
        None \<Rightarrow> False
      | Some f \<Rightarrow> fst (Rename e (fname f) (archive_name (fname f) (now e)) w) = None) \<and>
     open_fault e \<noteq> None"

text \<open>
  The archive name is not a name of the file already, so a rename to it that succeeds
  moves the file away from its name.
\<close>

definition rename_moves :: "env \<Rightarrow> rotateWriter \<Rightarrow> os_state \<Rightarrow> bool" where
  "rename_moves e rw w \<longleftrightarrow>
     (case file rw of
        None \<Rightarrow> False
      | Some f \<Rightarrow> names w (archive_name (fname f) (now e)) \<noteq> names w (fname f))"

text \<open>
  What \<open>New\<close> sets up and \<open>Write\<close> keeps, as long as nothing else touches the
  directory (\<open>Write_consistent\<close> says when): the handle carries the instance's name, an open handle is the file under that
  name, its offset is the end of the file unless it appends anyway, and inode numbers in
  use are below \<open>fresh\<close>.
\<close>

definition consistent :: "rotateWriter \<Rightarrow> os_state \<Rightarrow> bool" where
  "consistent rw w \<longleftrightarrow>
     (\<forall>name i. names w name = Some i \<longrightarrow> i < fresh w) \<and>
     (case file rw of
        None \<Rightarrow> True
      | Some f \<Rightarrow>
          fname f = filename rw \<and> ino f < fresh w \<and>
          (\<not> closed f \<longrightarrow>
             names w (filename rw) = Some (ino f) \<and>
             (appendmode f \<or> pos f = length (inodes w (ino f)))))"

text \<open>A client calling \<open>Write\<close> again and again, whatever each call returns.\<close>

fun Writes ::
  "(env \<times> byte list) list \<Rightarrow> rotateWriter \<Rightarrow> os_state
     \<Rightarrow> (nat \<times> error option) list \<times> rotateWriter \<times> os_state" where
  "Writes [] rw w = ([], rw, w)"
| "Writes ((e, p) # cs) rw w =
     (let (res, rw1, w1) = Write e rw p w;
          (rs, rw2, w2) = Writes cs rw1 w1
      in (res # rs, rw2, w2))"

text \<open>The size of the file under a name; 0 when the name does not exist.\<close>

definition file_size :: "os_state \<Rightarrow> string \<Rightarrow> nat" where
  "file_size w name = (case content w name of None \<Rightarrow> 0 | Some bs \<Rightarrow> length bs)"

section \<open>Concurrent callers\<close>

text \<open>
  One call of \<open>Write\<close> as the sequence of its calls into \<^verbatim>\<open>os\<close>, each one atomic: the
  program counter says which call is next. No step reads or sets \<open>mutex\<close>, as no line of
  \<^verbatim>\<open>Write\<close> calls \<^verbatim>\<open>rw.mutex.Lock\<close>.
\<close>

datatype pc = AtStat | AtClose | AtRename | AtOpenFile | AtWrite | Returned nat "error option"

definition step ::
  "env \<Rightarrow> byte list \<Rightarrow> pc \<Rightarrow> rotateWriter \<Rightarrow> os_state \<Rightarrow> pc \<times> rotateWriter \<times> os_state" where
  "step e p c rw w =
     (case c of
        AtStat \<Rightarrow>
          (let (stat, w1) = Stat e (file rw) w in
           if (case stat of Inl _ \<Rightarrow> False | Inr sz \<Rightarrow> sz > maxSize rw)
           then (AtClose, rw, w1) else (AtWrite, rw, w1))
      | AtClose \<Rightarrow>
          (let (_, f1, w2) = Close (file rw) w in (AtRename, rw\<lparr>file := f1\<rparr>, w2))
      | AtRename \<Rightarrow>
          (case Name (file rw) of
             Inl panic \<Rightarrow> (Returned 0 (Some panic), rw, w)
           | Inr fileName \<Rightarrow>
               (let name = archive_name fileName (now e);
                    (err, w3) = Rename e fileName name w
                in if err \<noteq> None then (Returned 0 err, rw, w3) else (AtOpenFile, rw, w3)))
      | AtOpenFile \<Rightarrow>
          (let (f2, err2, w4) = OpenFile e (filename rw) {O_CREATE, O_WRONLY} w;
               rw2 = rw\<lparr>file := f2\<rparr>
           in if err2 \<noteq> None then (Returned 0 err2, rw2, w4) else (AtWrite, rw2, w4))
      | AtWrite \<Rightarrow>
          (let (res, f3, w5) = FileWrite e (file rw) p w
           in (Returned (fst res) (snd res), rw\<lparr>file := f3\<rparr>, w5))
      | Returned n err \<Rightarrow> (Returned n err, rw, w))"

text \<open>One caller running alone for a number of steps.\<close>

fun steps ::
  "nat \<Rightarrow> env \<Rightarrow> byte list \<Rightarrow> pc \<Rightarrow> rotateWriter \<Rightarrow> os_state \<Rightarrow> pc \<times> rotateWriter \<times> os_state" where
  "steps 0 e p c rw w = (c, rw, w)"
| "steps (Suc k) e p c rw w = (let (c1, rw1, w1) = step e p c rw w in steps k e p c1 rw1 w1)"

text \<open>
  Two callers \<open>A\<close> and \<open>B\<close> on one instance; the schedule names who takes the next
  step (\<open>True\<close> for \<open>A\<close>).
\<close>

fun interleave ::
  "bool list \<Rightarrow> env \<times> byte list \<Rightarrow> env \<times> byte list \<Rightarrow> pc \<times> pc \<Rightarrow> rotateWriter \<Rightarrow> os_state
     \<Rightarrow> (pc \<times> pc) \<times> rotateWriter \<times> os_state" where
  "interleave [] A B cs rw w = (cs, rw, w)"
| "interleave (True # sched) A B (cA, cB) rw w =
     (let (cA1, rw1, w1) = step (fst A) (snd A) cA rw w
      in interleave sched A B (cA1, cB) rw1 w1)"
| "interleave (False # sched) A B (cA, cB) rw w =
     (let (cB1, rw1, w1) = step (fst B) (snd B) cB rw w
      in interleave sched A B (cA, cB1) rw1 w1)"

section \<open>A concrete run\<close>

definition march5 :: time where
  "march5 = \<lparr>year = 2024, month = 3, day = 5, hour = 9, minute = 8, second = 7\<rparr>"

text \<open>An operating system that fails nothing, and an empty directory.\<close>

definition calm :: env where
  "calm = \<lparr>now = march5, stat_fault = None, rename_fault = None, open_fault = None,
            write_room = None\<rparr>"

definition empty_os :: os_state where
  "empty_os = \<lparr>names = Map.empty, inodes = (\<lambda>_. []), fresh = 0, calls = []\<rparr>"

text \<open>An operating system whose size query fails (an I/O error), and nothing else.\<close>

definition stat_broken :: env where
  "stat_broken = calm\<lparr>stat_fault := Some (Errno 5)\<rparr>"

text \<open>One whose rename is refused (permission denied), one that cannot open a file.\<close>

definition rename_broken :: env where
  "rename_broken = calm\<lparr>rename_fault := Some (Errno 13)\<rparr>"

definition open_broken :: env where
  "open_broken = calm\<lparr>open_fault := Some (Errno 24)\<rparr>"

text \<open>
  \<^verbatim>\<open>New("/tmp/x.log", 100)\<close> and a first \<open>Write\<close> of 101 bytes \<^verbatim>\<open>'a'\<close>: the instance and
  the operating system afterwards.
\<close>

definition x_new :: "(rotateWriter option \<times> error option) \<times> os_state" where
  "x_new = New calm ''/tmp/x.log'' 100 empty_os"

definition x_rw0 :: rotateWriter where
  "x_rw0 = the (fst (fst x_new))"

definition x_first :: "(nat \<times> error option) \<times> rotateWriter \<times> os_state" where
  "x_first = Write calm x_rw0 (replicate 101 97) (snd x_new)"

definition x_rw1 :: rotateWriter where
  "x_rw1 = fst (snd x_first)"

definition x_os1 :: os_state where
  "x_os1 = snd (snd x_first)"

text \<open>
  The same state of the operating system with the archive name of 09:08:07 a hard link to
  the file already.
\<close>

definition x_os_link :: os_state where
  "x_os_link = x_os1\<lparr>names := (names x_os1)(''/tmp/x-20240305-090807.log'' \<mapsto> 0)\<rparr>"

text \<open>
  The instance after a second \<open>Write\<close> whose rename fails, and after one whose reopen
  fails.
\<close>

definition x_rw_closed :: rotateWriter where
  "x_rw_closed = fst (snd (Write rename_broken x_rw1 [98] x_os1))"

definition x_rw_nil :: rotateWriter where
  "x_rw_nil = fst (snd (Write open_broken x_rw1 [98] x_os1))"

text \<open>
  Two callers on the instance whose file holds 101 bytes, \<open>A\<close> writing \<^verbatim>\<open>'b'\<close> and \<open>B\<close>
  writing \<^verbatim>\<open>'c'\<close> within the same second: both make their size query before either goes
  on, then \<open>A\<close> runs to its end, then \<open>B\<close>. And the same two calls one after the other,
  in both orders.
\<close>

definition both_stat_first :: "bool list" where
  "both_stat_first = [True, False, True, True, True, True, False, False, False, False]"

definition x_racing :: "(pc \<times> pc) \<times> rotateWriter \<times> os_state" where
  "x_racing = interleave both_stat_first (calm, [98]) (calm, [99]) (AtStat, AtStat) x_rw1 x_os1"

definition x_serial :: "(nat \<times> error option) list \<times> rotateWriter \<times> os_state" where
  "x_serial = Writes [(calm, [98]), (calm, [99])] x_rw1 x_os1"

definition x_serial_rev :: "(nat \<times> error option) list \<times> rotateWriter \<times> os_state" where
  "x_serial_rev = Writes [(calm, [99]), (calm, [98])] x_rw1 x_os1"

section \<open>What one call does, case by case\<close>

lemma Stat_snd: "snd (Stat e f w) = logcall CallStat w"
  by (simp add: Stat_def Let_def split: option.splits)

lemma over_iff:
  "over e rw w \<longleftrightarrow>
     (\<exists>f. file rw = Some f \<and> \<not> closed f \<and> stat_fault e = None \<and>
          maxSize rw < int (length (inodes w (ino f))))"
  by (auto simp: over_def Stat_def Let_def logcall_def split: option.splits sum.splits)

lemma Write_not_over:
  assumes "\<not> over e rw w"
  shows "Write e rw p w =
           (fst (FileWrite e (file rw) p (logcall CallStat w)),
            rw\<lparr>file := fst (snd (FileWrite e (file rw) p (logcall CallStat w)))\<rparr>,
            snd (snd (FileWrite e (file rw) p (logcall CallStat w))))"
  using assms
  by (simp add: over_def Write_def Let_def case_prod_beta Stat_snd)

lemma Write_rename_fails:
  assumes "file rw = Some f" "\<not> closed f" "stat_fault e = None"
      "maxSize rw < int (length (inodes w (ino f)))"
      "fst (Rename e (fname f) (archive_name (fname f) (now e)) w) = Some err"
  shows "Write e rw p w =
           ((0, Some err), rw\<lparr>file := Some (f\<lparr>closed := True\<rparr>)\<rparr>,
            w\<lparr>calls := calls w @
               [CallStat, CallClose, CallRename (fname f) (archive_name (fname f) (now e))]\<rparr>)"
  using assms
  by (auto simp: Write_def Stat_def Close_def Name_def Rename_def logcall_def Let_def
           split: option.splits)

lemma Write_reopen_fails:
  assumes "file rw = Some f" "\<not> closed f" "stat_fault e = None"
      "maxSize rw < int (length (inodes w (ino f)))"
      "rename_fault e = None" "names w (fname f) = Some i" "open_fault e = Some err"
  shows "Write e rw p w =
           ((0, Some err), rw\<lparr>file := None\<rparr>,
            w\<lparr>names := rename_dir (names w) (fname f) (archive_name (fname f) (now e)) i,
              calls := calls w @
               [CallStat, CallClose, CallRename (fname f) (archive_name (fname f) (now e)),
                CallOpenFile (filename rw) {O_CREATE, O_WRONLY}]\<rparr>)"
  using assms
  by (auto simp: Write_def Stat_def Close_def Name_def Rename_def OpenFile_def logcall_def Let_def
           split: option.splits)

lemma Write_rotates:
  assumes "file rw = Some f" "\<not> closed f" "stat_fault e = None"
      "maxSize rw < int (length (inodes w (ino f)))"
      "rename_fault e = None" "names w (fname f) = Some i" "open_fault e = None"
  shows "Write e rw p w =
           (let w3 = w\<lparr>names := rename_dir (names w) (fname f) (archive_name (fname f) (now e)) i,
                      calls := calls w @
                        [CallStat, CallClose,
                         CallRename (fname f) (archive_name (fname f) (now e))]\<rparr>;
                r = OpenFile e (filename rw) {O_CREATE, O_WRONLY} w3;
                r' = FileWrite e (fst r) p (snd (snd r))
            in (fst r', rw\<lparr>file := fst (snd r')\<rparr>, snd (snd r')))"
  using assms
  by (auto simp: Write_def Stat_def Close_def Name_def Rename_def OpenFile_def logcall_def Let_def
           split: option.splits prod.splits)

lemma Write_maxSize: "maxSize (fst (snd (Write e rw p w))) = maxSize rw"
  by (simp add: Write_def Let_def split: prod.splits sum.splits option.splits)

lemma Write_filename: "filename (fst (snd (Write e rw p w))) = filename rw"
  by (simp add: Write_def Let_def split: prod.splits sum.splits option.splits)

lemma Writes_maxSize: "maxSize (fst (snd (Writes cs rw w))) = maxSize rw"
proof (induction cs arbitrary: rw w)
  case Nil
  show ?case by simp
next
  case (Cons c cs)
  obtain e p where c: "c = (e, p)" by (cases c)
  obtain res rw1 w1 where W: "Write e rw p w = (res, rw1, w1)" by (cases "Write e rw p w")
  have "maxSize rw1 = maxSize rw" using Write_maxSize [of e rw p w] W by simp
  then show ?case using Cons.IH [of rw1 w1] c W by (auto simp: Let_def split: prod.splits)
qed

lemma New_maxSize:
  "New e fn m w = ((Some rw, err), w') \<Longrightarrow>
     maxSize rw = (if m \<le> 0 then 10 * 1024 * 1024 else m)"
  by (auto simp: New_def Let_def DefaultSize_def split: prod.splits if_splits)

lemma Write_over_calls:
  assumes "over e rw w" "file rw = Some f"
  shows "take 3 (calls_since w (snd (snd (Write e rw p w)))) =
           [CallStat, CallClose, CallRename (fname f) (archive_name (fname f) (now e))]"
  using assms
  by (auto simp: over_iff Write_def Stat_def Close_def Name_def Rename_def OpenFile_def FileWrite_def
        logcall_def calls_since_def Let_def split: option.splits prod.splits)

section \<open>The concrete run, evaluated\<close>

lemma x_new_eq:
  "x_new =
     ((Some \<lparr>mutex = False, filename = ''/tmp/x.log'',
             file = Some \<lparr>fname = ''/tmp/x.log'', ino = 0, appendmode = True, pos = 0,
                          closed = False\<rparr>,
             maxSize = 100\<rparr>, None),
      \<lparr>names = [''/tmp/x.log'' \<mapsto> 0], inodes = (\<lambda>_. [])(0 := []), fresh = 1,
       calls = [CallOpenFile ''/tmp/x.log'' {O_CREATE, O_APPEND, O_WRONLY}]\<rparr>)"
  by (simp add: x_new_def New_def OpenFile_def logcall_def calm_def empty_os_def Let_def)

lemma x_rw0_eq:
  "x_rw0 = \<lparr>mutex = False, filename = ''/tmp/x.log'',
             file = Some \<lparr>fname = ''/tmp/x.log'', ino = 0, appendmode = True, pos = 0,
                          closed = False\<rparr>,
             maxSize = 100\<rparr>"
  by (simp add: x_rw0_def x_new_eq)

lemma x_first_eq:
  "x_first =
     ((101, None),
      \<lparr>mutex = False, filename = ''/tmp/x.log'',
       file = Some \<lparr>fname = ''/tmp/x.log'', ino = 0, appendmode = True, pos = 101,
                    closed = False\<rparr>,
       maxSize = 100\<rparr>,
      \<lparr>names = [''/tmp/x.log'' \<mapsto> 0], inodes = (\<lambda>_. [])(0 := replicate 101 97), fresh = 1,
       calls = [CallOpenFile ''/tmp/x.log'' {O_CREATE, O_APPEND, O_WRONLY}, CallStat,
                CallWrite (replicate 101 97)]\<rparr>)"
  by (simp add: x_first_def x_rw0_eq x_new_eq Write_def Stat_def FileWrite_def write_at_def
        logcall_def calm_def Let_def)

lemma x_rw1_eq:
  "x_rw1 = \<lparr>mutex = False, filename = ''/tmp/x.log'',
       file = Some \<lparr>fname = ''/tmp/x.log'', ino = 0, appendmode = True, pos = 101,
                    closed = False\<rparr>,
       maxSize = 100\<rparr>"
  by (simp add: x_rw1_def x_first_eq)

lemma x_os1_eq:
  "x_os1 = \<lparr>names = [''/tmp/x.log'' \<mapsto> 0], inodes = (\<lambda>_. [])(0 := replicate 101 97), fresh = 1,
       calls = [CallOpenFile ''/tmp/x.log'' {O_CREATE, O_APPEND, O_WRONLY}, CallStat,
                CallWrite (replicate 101 97)]\<rparr>"
  by (simp add: x_os1_def x_first_eq)

lemma x_over: "over calm x_rw1 x_os1"
  by (simp add: over_iff x_rw1_eq x_os1_eq calm_def)

section \<open>The threshold\<close>

text \<open>
  C8. Constructing with \<open>maxSize \<le> 0\<close> gives the very instance, and the very state of the
  operating system, that constructing with \<open>10 \<times> 1024 \<times> 1024\<close> gives; a positive
  \<open>maxSize\<close> is stored as given; and no sequence of \<open>Write\<close> calls, whatever they
  return, changes the \<open>maxSize\<close> of the instance.
\<close>

theorem maxSize_default_and_fixed:
  "(m \<le> 0 \<longrightarrow> New e fn m w = New e fn (10 * 1024 * 1024) w) \<and>
   (\<forall>rw err w'. New e fn m w = ((Some rw, err), w') \<longrightarrow>
      maxSize rw = (if m \<le> 0 then 10 * 1024 * 1024 else m)) \<and>
   maxSize (fst (snd (Writes cs rw0 w0))) = maxSize rw0"
proof (intro conjI allI impI)
  assume "m \<le> 0"
  then show "New e fn m w = New e fn (10 * 1024 * 1024) w"
    by (simp add: New_def DefaultSize_def split: prod.splits)
next
  fix rw err w'
  assume "New e fn m w = ((Some rw, err), w')"
  then show "maxSize rw = (if m \<le> 0 then 10 * 1024 * 1024 else m)"
    by (rule New_maxSize)
next
  show "maxSize (fst (snd (Writes cs rw0 w0))) = maxSize rw0"
    by (rule Writes_maxSize)
qed

theorem maxSize_default_and_fixed_witness:
  "(-5::int) \<le> 0 \<and>
   New calm ''/tmp/x.log'' (-5) empty_os = New calm ''/tmp/x.log'' (10 * 1024 * 1024) empty_os \<and>
   maxSize (the (fst (fst (New calm ''/tmp/x.log'' (-5) empty_os)))) = 10485760 \<and>
   maxSize (the (fst (fst (New calm ''/tmp/x.log'' 100 empty_os)))) = 100 \<and>
   maxSize (fst (snd (Writes [(calm, replicate 101 97), (calm, [98])] x_rw0 (snd x_new)))) =
     maxSize x_rw0"
proof -
  let ?fn = "''/tmp/x.log''"
  have ex: "\<exists>rw w'. New calm ?fn m empty_os = ((Some rw, None), w')" for m
    by (simp add: New_def OpenFile_def logcall_def calm_def empty_os_def Let_def)
  note T5 = maxSize_default_and_fixed [of "-5" calm ?fn empty_os
              "[(calm, replicate 101 97), (calm, [98])]" x_rw0 "snd x_new"]
  note T100 = maxSize_default_and_fixed [of 100 calm ?fn empty_os "[]" x_rw0 "snd x_new"]
  have a: "New calm ?fn (-5) empty_os = New calm ?fn (10 * 1024 * 1024) empty_os"
    using T5 by simp
  obtain rw5 w5 where n5: "New calm ?fn (-5) empty_os = ((Some rw5, None), w5)"
    using ex by blast
  have "maxSize rw5 = (if (-5::int) \<le> 0 then 10 * 1024 * 1024 else -5)"
    using T5 n5 by blast
  then have b: "maxSize (the (fst (fst (New calm ?fn (-5) empty_os)))) = 10485760"
    by (simp add: n5)
  obtain rw100 w100 where n100: "New calm ?fn 100 empty_os = ((Some rw100, None), w100)"
    using ex by blast
  have "maxSize rw100 = (if (100::int) \<le> 0 then 10 * 1024 * 1024 else 100)"
    using T100 n100 by blast
  then have c: "maxSize (the (fst (fst (New calm ?fn 100 empty_os)))) = 100"
    by (simp add: n100)
  have d: "maxSize (fst (snd (Writes [(calm, replicate 101 97), (calm, [98])] x_rw0 (snd x_new)))) =
      maxSize x_rw0"
    using T5 by blast
  show ?thesis using a b c d by simp
qed

section \<open>The archive name\<close>

lemma ExtFrom_take:
  "k \<le> length path \<Longrightarrow>
   ExtFrom path k =
     (let seg = takeWhile (\<lambda>c. c \<noteq> CHR ''/'') (rev (take k path))
      in if CHR ''.'' \<in> set seg
         then CHR ''.'' # rev (takeWhile (\<lambda>c. c \<noteq> CHR ''.'') seg) @ drop k path
         else [])"
proof (induction k)
  case 0
  show ?case by simp
next
  case (Suc k)
  then have k: "k < length path" by simp
  have tk: "rev (take (Suc k) path) = path ! k # rev (take k path)"
    using k by (simp add: take_Suc_conv_app_nth)
  have dk: "drop k path = path ! k # drop (Suc k) path"
    using k by (simp add: Cons_nth_drop_Suc)
  show ?case
    using Suc.IH k by (simp add: tk dk Let_def)
qed

lemma Ext_spec: "Ext nm = spec_extension nm"
  using ExtFrom_take [of "length nm" nm] by (simp add: Ext_def spec_extension_def Let_def)

lemma spec_extension_suffix: "\<exists>base. nm = base @ spec_extension nm"
proof -
  let ?seg = "takeWhile (\<lambda>c. c \<noteq> CHR ''/'') (rev nm)"
  show ?thesis
  proof (cases "CHR ''.'' \<in> set ?seg")
    case False
    then show ?thesis by (simp add: spec_extension_def)
  next
    case True
    let ?r = "takeWhile (\<lambda>c. c \<noteq> CHR ''.'') ?seg"
    have "?seg = ?r @ dropWhile (\<lambda>c. c \<noteq> CHR ''.'') ?seg" by simp
    moreover have "dropWhile (\<lambda>c. c \<noteq> CHR ''.'') ?seg \<noteq> []" using True by simp
    moreover have "hd (dropWhile (\<lambda>c. c \<noteq> CHR ''.'') ?seg) = CHR ''.''"
      using True hd_dropWhile[of "\<lambda>c. c \<noteq> CHR ''.''" ?seg] by auto
    ultimately obtain rest where seg: "?seg = ?r @ CHR ''.'' # rest"
      by (metis list.collapse)
    have "rev nm = ?seg @ dropWhile (\<lambda>c. c \<noteq> CHR ''/'') (rev nm)" by simp
    then have "rev nm = ?r @ CHR ''.'' # rest @ dropWhile (\<lambda>c. c \<noteq> CHR ''/'') (rev nm)"
      using seg by (metis append_Cons append_assoc)
    then have "nm = rev (rest @ dropWhile (\<lambda>c. c \<noteq> CHR ''/'') (rev nm)) @ CHR ''.'' # rev ?r"
      by (metis rev_append rev.simps(2) rev_rev_ident append_assoc append_Cons append_Nil)
    then show ?thesis using True
      by (simp add: spec_extension_def Let_def) (metis append_assoc)
  qed
qed

lemma Trim_Ext: "TrimSuffix nm (Ext nm) @ Ext nm = nm"
proof -
  obtain base where b: "nm = base @ Ext nm" using spec_extension_suffix [of nm] Ext_spec by metis
  have len: "length nm - length (Ext nm) = length base"
    using arg_cong [OF b, of length] by simp
  have d: "drop (length base) nm = Ext nm"
    using arg_cong [OF b, of "drop (length base)"] by simp
  have t: "take (length base) nm = base"
    using arg_cong [OF b, of "take (length base)"] by simp
  have "length (Ext nm) \<le> length nm"
    using arg_cong [OF b, of length] by simp
  then have "HasSuffix nm (Ext nm)"
    by (simp add: HasSuffix_def len d)
  then show ?thesis using b by (simp add: TrimSuffix_def len t)
qed

lemma archive_name_longer: "length (archive_name nm t) > length nm"
proof -
  have "length (TrimSuffix nm (Ext nm)) + length (Ext nm) = length nm"
    using Trim_Ext [of nm] by (metis length_append)
  then show ?thesis by (simp add: archive_name_def Let_def)
qed

lemma archive_name_neq: "archive_name nm t \<noteq> nm"
  using archive_name_longer [of nm t] by auto

lemma dec_small: "n < 10 \<Longrightarrow> decimal n = [''0123456789'' ! n]"
  by (subst decimal.simps) simp

lemma dec_eval: "decimal 2024 = ''2024''" "decimal 3 = ''3''" "decimal 5 = ''5''"
   "decimal 9 = ''9''" "decimal 8 = ''8''" "decimal 7 = ''7''"
  by (simp_all add: decimal.simps)

lemma Format_march5: "Format march5 = ''20240305-090807''"
  by (simp add: Format_def march5_def appendInt_def dec_eval)

lemma archive_name_log_txt: "archive_name ''a/b/log.txt'' march5 = ''a/b/log-20240305-090807.txt''"
  by (simp add: archive_name_def Format_march5 Ext_spec spec_extension_def TrimSuffix_def HasSuffix_def Let_def)

lemma archive_name_log: "archive_name ''a/b/log'' march5 = ''a/b/log-20240305-090807''"
  by (simp add: archive_name_def Format_march5 Ext_spec spec_extension_def TrimSuffix_def HasSuffix_def Let_def)

lemma length_decimal: "0 < k \<Longrightarrow> n < 10 ^ k \<Longrightarrow> length (decimal n) \<le> k"
proof (induction k arbitrary: n)
  case 0
  then show ?case by simp
next
  case (Suc k)
  show ?case
  proof (cases "n < 10")
    case True
    then show ?thesis by (simp add: dec_small)
  next
    case False
    then have k: "0 < k" using Suc.prems by (cases k) auto
    have "n div 10 < 10 ^ k" using Suc.prems by (simp add: less_mult_imp_div_less mult.commute) 
    then have "length (decimal (n div 10)) \<le> k" using Suc.IH k by blast
    then show ?thesis using False by (subst decimal.simps) simp
  qed
qed

lemma length_appendInt: "0 < k \<Longrightarrow> n < 10 ^ k \<Longrightarrow> length (appendInt n k) = k"
  using length_decimal [of k n] by (simp add: appendInt_def)

lemma length_Format:
  "year t < 10000 \<Longrightarrow> month t < 100 \<Longrightarrow> day t < 100 \<Longrightarrow> hour t < 100 \<Longrightarrow> minute t < 100 \<Longrightarrow> second t < 100
   \<Longrightarrow> length (Format t) = 15"
  using length_appendInt [of 4 "year t"] length_appendInt [of 2 "month t"]
    length_appendInt [of 2 "day t"] length_appendInt [of 2 "hour t"]
    length_appendInt [of 2 "minute t"] length_appendInt [of 2 "second t"]
  by (simp add: Format_def)

text \<open>
  C3. The archive name is base, a hyphen, the timestamp and the extension, where base and
  extension split the file's name, the extension is the last dot-segment of the name's last
  path element (with its dot; empty without a dot), and a call that rotates renames the
  file's name to exactly this archive name. The timestamp is year, month, day, a hyphen,
  hour, minute and second, zero-padded to 4 and 2 digits, 15 characters for a date with a
  four-digit year. At 2024-03-05 09:08:07 the timestamp reads
  20240305-090807, \<^verbatim>\<open>a/b/log.txt\<close> gives \<^verbatim>\<open>a/b/log-20240305-090807.txt\<close> and
  \<^verbatim>\<open>a/b/log\<close> gives \<^verbatim>\<open>a/b/log-20240305-090807\<close>, with no trailing dot.
\<close>

theorem archive_name_base_timestamp_ext:
  "archive_name nm t = TrimSuffix nm (Ext nm) @ ''-'' @ Format t @ Ext nm \<and>
   TrimSuffix nm (Ext nm) @ Ext nm = nm \<and>
   Ext nm = spec_extension nm \<and>
   (over e rw w \<longrightarrow>
      (\<exists>f. file rw = Some f \<and>
           take 3 (calls_since w (snd (snd (Write e rw p w)))) =
             [CallStat, CallClose, CallRename (fname f) (archive_name (fname f) (now e))])) \<and>
   Format t =
     appendInt (year t) 4 @ appendInt (month t) 2 @ appendInt (day t) 2 @ ''-'' @
     appendInt (hour t) 2 @ appendInt (minute t) 2 @ appendInt (second t) 2 \<and>
   (year t < 10000 \<and> month t < 100 \<and> day t < 100 \<and> hour t < 100 \<and> minute t < 100 \<and>
    second t < 100 \<longrightarrow> length (Format t) = 15) \<and>
   Format march5 = ''20240305-090807'' \<and>
   archive_name ''a/b/log.txt'' march5 = ''a/b/log-20240305-090807.txt'' \<and>
   archive_name ''a/b/log'' march5 = ''a/b/log-20240305-090807''"
proof (intro conjI impI)
  show "archive_name nm t = TrimSuffix nm (Ext nm) @ ''-'' @ Format t @ Ext nm"
    by (simp add: archive_name_def Let_def)
  show "Format t =
     appendInt (year t) 4 @ appendInt (month t) 2 @ appendInt (day t) 2 @ ''-'' @
     appendInt (hour t) 2 @ appendInt (minute t) 2 @ appendInt (second t) 2"
    by (rule Format_def)
  show "TrimSuffix nm (Ext nm) @ Ext nm = nm" by (rule Trim_Ext)
  show "Ext nm = spec_extension nm" by (rule Ext_spec)
  show "Format march5 = ''20240305-090807''" by (rule Format_march5)
  show "archive_name ''a/b/log.txt'' march5 = ''a/b/log-20240305-090807.txt''"
    by (rule archive_name_log_txt)
  show "archive_name ''a/b/log'' march5 = ''a/b/log-20240305-090807''"
    by (rule archive_name_log)
next
  assume o: "over e rw w"
  then obtain f where f: "file rw = Some f" by (auto simp: over_iff)
  show "\<exists>f. file rw = Some f \<and>
           take 3 (calls_since w (snd (snd (Write e rw p w)))) =
             [CallStat, CallClose, CallRename (fname f) (archive_name (fname f) (now e))]"
    using Write_over_calls [OF o f] f by blast
next
  assume "year t < 10000 \<and> month t < 100 \<and> day t < 100 \<and> hour t < 100 \<and> minute t < 100 \<and>
    second t < 100"
  then show "length (Format t) = 15" by (simp add: length_Format)
qed

theorem archive_name_base_timestamp_ext_witness:
  "over calm x_rw1 x_os1 \<and>
   take 3 (calls_since x_os1 (snd (snd (Write calm x_rw1 [98] x_os1)))) =
     [CallStat, CallClose, CallRename ''/tmp/x.log'' ''/tmp/x-20240305-090807.log''] \<and>
   year march5 < 10000 \<and> month march5 < 100 \<and> day march5 < 100 \<and> hour march5 < 100 \<and>
   minute march5 < 100 \<and> second march5 < 100 \<and> length (Format march5) = 15"
proof -
  have m: "year march5 < 10000 \<and> month march5 < 100 \<and> day march5 < 100 \<and> hour march5 < 100 \<and>
      minute march5 < 100 \<and> second march5 < 100"
    by (simp add: march5_def)
  have a: "archive_name ''/tmp/x.log'' march5 = ''/tmp/x-20240305-090807.log''"
    by (simp add: archive_name_def Format_march5 Ext_spec spec_extension_def TrimSuffix_def
          HasSuffix_def Let_def)
  have f: "file x_rw1 = Some \<lparr>fname = ''/tmp/x.log'', ino = 0, appendmode = True, pos = 101,
                               closed = False\<rparr>"
    by (simp add: x_rw1_eq)
  have n: "now calm = march5" by (simp add: calm_def)
  note T = archive_name_base_timestamp_ext [of "''/tmp/x.log''" march5 calm x_rw1 x_os1 "[98]"]
  have l: "length (Format march5) = 15" using T m by blast
  have c: "take 3 (calls_since x_os1 (snd (snd (Write calm x_rw1 [98] x_os1)))) =
     [CallStat, CallClose, CallRename ''/tmp/x.log'' ''/tmp/x-20240305-090807.log'']"
    using T x_over f a n by simp
  show ?thesis using x_over c m l by blast
qed

section \<open>Calls made, and when a call rotates\<close>

lemma FileWrite_calls: "calls (snd (snd (FileWrite e fo p w))) = calls w @ [CallWrite p]"
  by (simp add: FileWrite_def logcall_def Let_def split: option.splits prod.splits)

lemma Write_not_over_calls:
  "\<not> over e rw w \<Longrightarrow> calls_since w (snd (snd (Write e rw p w))) = [CallStat, CallWrite p]"
  by (simp add: Write_not_over FileWrite_calls calls_since_def logcall_def)

lemma rotated_iff_over: "rotated w (snd (snd (Write e rw p w))) \<longleftrightarrow> over e rw w"
proof (cases "over e rw w")
  case True
  then obtain f where f: "file rw = Some f" by (auto simp: over_iff)
  let ?cs = "calls_since w (snd (snd (Write e rw p w)))"
  have "CallRename (fname f) (archive_name (fname f) (now e)) \<in> set (take 3 ?cs)"
    by (simp add: Write_over_calls [OF True f])
  then have "CallRename (fname f) (archive_name (fname f) (now e)) \<in> set ?cs"
    by (rule in_set_takeD)
  then have "list_ex is_rename ?cs"
    unfolding list_ex_iff by (rule bexI [rotated]) simp
  then show ?thesis using True by (simp add: rotated_def)
next
  case False
  then show ?thesis by (simp add: rotated_def Write_not_over_calls)
qed

lemma Write_calls_grow: "\<exists>cs. calls (snd (snd (Write e rw p w))) = calls w @ cs"
proof (cases "over e rw w")
  case False
  then show ?thesis by (simp add: Write_not_over FileWrite_calls logcall_def)
next
  case True
  then show ?thesis
    by (auto simp: over_iff Write_def Stat_def Close_def Name_def Rename_def OpenFile_def FileWrite_def
        logcall_def Let_def split: option.splits prod.splits)
qed

lemma rotated_trans:
  assumes "calls w1 = calls w @ cs1" "calls w2 = calls w1 @ cs2"
  shows "rotated w w2 \<longleftrightarrow> rotated w w1 \<or> rotated w1 w2"
  using assms by (auto simp: rotated_def calls_since_def)

lemma FileWrite_length:
  assumes "fo = Some f" "\<not> closed f" "appendmode f \<or> pos f = length (inodes w (ino f))"
  shows "fst (snd (FileWrite e fo p w)) = Some (f\<lparr>pos := length (inodes w (ino f)) + fst (fst (FileWrite e fo p w))\<rparr>)
       \<and> length (inodes (snd (snd (FileWrite e fo p w))) (ino f)) = length (inodes w (ino f)) + fst (fst (FileWrite e fo p w))
       \<and> names (snd (snd (FileWrite e fo p w))) = names w
       \<and> fresh (snd (snd (FileWrite e fo p w))) = fresh w"
  using assms
  by (auto simp: FileWrite_def logcall_def Let_def write_at_def split: option.splits prod.splits)

lemma Writes_calls_grow: "\<exists>cs2. calls (snd (snd (Writes cs rw1 w1))) = calls w1 @ cs2"
proof (induction cs arbitrary: rw1 w1)
  case Nil
  show ?case by simp
next
  case (Cons d ds)
  obtain e' p' where d: "d = (e', p')" by (cases d)
  obtain r' rw' w' where W': "Write e' rw1 p' w1 = (r', rw', w')" by (cases "Write e' rw1 p' w1")
  obtain x where x: "calls w' = calls w1 @ x" using Write_calls_grow [of e' rw1 p' w1] W' by auto
  obtain y where y: "calls (snd (snd (Writes ds rw' w'))) = calls w' @ y" using Cons.IH by blast
  show ?case using d W' x y by (auto simp: Let_def split: prod.splits)
qed

section \<open>The invariant of the instance\<close>

lemma FileWrite_unusable:
  "(case fo of None \<Rightarrow> True | Some f \<Rightarrow> closed f) \<Longrightarrow>
   FileWrite e fo p w = ((0, Some (case fo of None \<Rightarrow> ErrInvalid | Some f \<Rightarrow> ErrClosed)), fo, logcall (CallWrite p) w)"
  by (auto simp: FileWrite_def Let_def split: option.splits)

lemma consistent_names: "consistent rw w \<Longrightarrow> names w name = Some i \<Longrightarrow> i < fresh w"
  by (simp add: consistent_def)

lemma consistent_file:
  "consistent rw w \<Longrightarrow> file rw = Some f \<Longrightarrow>
     fname f = filename rw \<and> ino f < fresh w \<and>
     (\<not> closed f \<longrightarrow> names w (filename rw) = Some (ino f) \<and>
        (appendmode f \<or> pos f = length (inodes w (ino f))))"
  by (simp add: consistent_def)

lemma consistent_not_over:
  assumes c: "consistent rw w" and o: "\<not> over e rw w"
  shows "consistent (fst (snd (Write e rw p w))) (snd (snd (Write e rw p w)))"
proof (cases "usable rw")
  case False
  then have u: "case file rw of None \<Rightarrow> True | Some f \<Rightarrow> closed f"
    by (auto simp: usable_def split: option.splits)
  show ?thesis
    using c by (auto simp: Write_not_over [OF o] FileWrite_unusable [OF u] consistent_def logcall_def
        split: option.splits)
next
  case True
  then obtain f where f: "file rw = Some f" "\<not> closed f"
    by (auto simp: usable_def split: option.splits)
  have a: "appendmode f \<or> pos f = length (inodes (logcall CallStat w) (ino f))"
    using c f by (auto simp: consistent_def logcall_def)
  note L = FileWrite_length [OF f(1) f(2) a, of e p]
  note F = consistent_file [OF c f(1)]
  show ?thesis
    unfolding consistent_def
    using consistent_names [OF c] f F L
    by (auto simp: Write_not_over [OF o] logcall_def)
qed

lemma consistent_over:
  assumes c: "consistent rw w" and o: "over e rw w"
    and mv: "names w (archive_name (filename rw) (now e)) \<noteq> names w (filename rw)"
  shows "consistent (fst (snd (Write e rw p w))) (snd (snd (Write e rw p w)))"
proof -
  from o obtain f where f: "file rw = Some f" "\<not> closed f" "stat_fault e = None"
      "maxSize rw < int (length (inodes w (ino f)))"
    by (auto simp: over_iff)
  note F = consistent_file [OF c f(1)]
  note N = consistent_names [OF c]
  have nm: "fname f = filename rw" and i: "names w (fname f) = Some (ino f)"
    and lt: "ino f < fresh w"
    using F f by auto
  let ?a = "archive_name (fname f) (now e)"
  have rd: "rename_dir (names w) (fname f) ?a (ino f) = ((names w)(fname f := None))(?a \<mapsto> ino f)"
    using mv nm i by (simp add: rename_dir_def)
  show ?thesis
  proof (cases "rename_fault e")
    case (Some err)
    then have "fst (Rename e (fname f) ?a w) = Some err"
      by (simp add: Rename_def Let_def)
    from Write_rename_fails [OF f this, of p] show ?thesis
      unfolding consistent_def using N nm lt by auto
  next
    case None
    show ?thesis
    proof (cases "open_fault e")
      case (Some err)
      from Write_reopen_fails [OF f None i Some, of p] show ?thesis
        unfolding consistent_def using N lt by (auto simp: rd split: if_splits)
    next
      case ofn: None
      have ne: "?a \<noteq> filename rw" using archive_name_neq [of "fname f" "now e"] nm by simp
      let ?w3 = "w\<lparr>names := ((names w)(fname f := None))(?a \<mapsto> ino f),
                      calls := calls w @ [CallStat, CallClose, CallRename (fname f) ?a]\<rparr>"
      let ?f2 = "\<lparr>fname = filename rw, ino = fresh w, appendmode = False, pos = 0, closed = False\<rparr>"
      let ?w4 = "?w3\<lparr>calls := calls ?w3 @ [CallOpenFile (filename rw) {O_CREATE, O_WRONLY}],
                      names := (names ?w3)(filename rw \<mapsto> fresh w),
                      inodes := (inodes w)(fresh w := []), fresh := Suc (fresh w)\<rparr>"
      have op: "OpenFile e (filename rw) {O_CREATE, O_WRONLY} ?w3 = (Some ?f2, None, ?w4)"
        using ofn ne nm by (simp add: OpenFile_def logcall_def Let_def)
      have a: "appendmode ?f2 \<or> pos ?f2 = length (inodes ?w4 (ino ?f2))" by simp
      have cl: "\<not> closed ?f2" by simp
      note L = FileWrite_length [OF refl cl a, of e p]
      have W: "Write e rw p w =
          (fst (FileWrite e (Some ?f2) p ?w4), rw\<lparr>file := fst (snd (FileWrite e (Some ?f2) p ?w4))\<rparr>,
           snd (snd (FileWrite e (Some ?f2) p ?w4)))"
        using Write_rotates [OF f None i ofn, of p] op by (simp add: Let_def rd)
      show ?thesis
        unfolding consistent_def W
        using L N lt by (auto simp: less_Suc_eq split: if_splits)
    qed
  qed
qed

text \<open>
  A call that does not rotate keeps the invariant, and so does a call that rotates when
  the archive name is not a link to the file already. (When it is, the rename changes
  nothing and the reopen opens the old file at offset 0, not at its end.)
\<close>

lemma Write_consistent:
  "consistent rw w \<Longrightarrow>
   \<not> over e rw w \<or> names w (archive_name (filename rw) (now e)) \<noteq> names w (filename rw) \<Longrightarrow>
   consistent (fst (snd (Write e rw p w))) (snd (snd (Write e rw p w)))"
  using consistent_not_over consistent_over by blast

text \<open>\<open>New\<close> sets the invariant up, on a directory whose inode numbers are below \<open>fresh\<close>.\<close>

lemma New_consistent:
  assumes "New e fn m w = ((Some rw, err), w')" "\<forall>name i. names w name = Some i \<longrightarrow> i < fresh w"
  shows "consistent rw w'"
  using assms
  by (auto simp: New_def OpenFile_def logcall_def Let_def consistent_def less_Suc_eq
      split: option.splits prod.splits if_splits)

section \<open>Below the threshold\<close>

lemma small_not_over:
  assumes c: "consistent rw w" and s: "int (file_size w (filename rw)) \<le> maxSize rw"
  shows "\<not> over e rw w"
proof
  assume "over e rw w"
  then obtain f where f: "file rw = Some f" "\<not> closed f"
      "maxSize rw < int (length (inodes w (ino f)))"
    by (auto simp: over_iff)
  have "names w (filename rw) = Some (ino f)"
    using consistent_file [OF c f(1)] f(2) by simp
  then have "file_size w (filename rw) = length (inodes w (ino f))"
    by (simp add: file_size_def content_def)
  then show False using s f(3) by simp
qed

lemma not_over_size:
  assumes c: "consistent rw w" and o: "\<not> over e rw w"
  shows "file_size (snd (snd (Write e rw p w))) (filename rw) =
           file_size w (filename rw) + fst (fst (Write e rw p w))"
proof (cases "usable rw")
  case False
  then have u: "case file rw of None \<Rightarrow> True | Some f \<Rightarrow> closed f"
    by (auto simp: usable_def split: option.splits)
  show ?thesis
    by (simp add: Write_not_over [OF o] FileWrite_unusable [OF u] logcall_def file_size_def content_def)
next
  case True
  then obtain f where f: "file rw = Some f" "\<not> closed f"
    by (auto simp: usable_def split: option.splits)
  have a: "appendmode f \<or> pos f = length (inodes (logcall CallStat w) (ino f))"
    using c f by (auto simp: consistent_def logcall_def)
  note L = FileWrite_length [OF f(1) f(2) a, of e p]
  have n: "names w (filename rw) = Some (ino f)"
    using consistent_file [OF c f(1)] f(2) by simp
  show ?thesis
    using L n by (simp add: Write_not_over [OF o] file_size_def content_def logcall_def)
qed

lemma Writes_no_rotation:
  assumes "consistent rw w"
    "int (file_size w (filename rw)) + int (sum_list (map fst (fst (Writes cs rw w)))) \<le> maxSize rw"
  shows "\<not> rotated w (snd (snd (Writes cs rw w)))"
  using assms
proof (induction cs arbitrary: rw w)
  case Nil
  show ?case by (simp add: rotated_def calls_since_def)
next
  case (Cons c cs)
  obtain e p where c: "c = (e, p)" by (cases c)
  obtain res rw1 w1 where W: "Write e rw p w = (res, rw1, w1)" by (cases "Write e rw p w")
  obtain rs rw2 w2 where Ws: "Writes cs rw1 w1 = (rs, rw2, w2)" by (cases "Writes cs rw1 w1")
  have all: "Writes (c # cs) rw w = (res # rs, rw2, w2)"
    using c W Ws by simp
  have bound: "int (file_size w (filename rw)) + int (fst res) + int (sum_list (map fst rs)) \<le> maxSize rw"
    using Cons.prems(2) all by simp
  then have "int (file_size w (filename rw)) \<le> maxSize rw" by linarith
  then have o: "\<not> over e rw w" by (rule small_not_over [OF Cons.prems(1)])
  have c1: "consistent rw1 w1"
    using consistent_not_over [OF Cons.prems(1) o, of p] W by simp
  have fn: "filename rw1 = filename rw" using Write_filename [of e rw p w] W by simp
  have ms: "maxSize rw1 = maxSize rw" using Write_maxSize [of e rw p w] W by simp
  have sz: "file_size w1 (filename rw1) = file_size w (filename rw) + fst res"
    using not_over_size [OF Cons.prems(1) o, of p] W fn by simp
  have "int (file_size w1 (filename rw1)) + int (sum_list (map fst (fst (Writes cs rw1 w1)))) \<le> maxSize rw1"
    using bound sz ms Ws by simp
  then have r2: "\<not> rotated w1 w2" using Cons.IH [OF c1] Ws by simp
  have r1: "\<not> rotated w w1" using rotated_iff_over [of w e rw p] W o by simp
  obtain cs1 where g1: "calls w1 = calls w @ cs1" using Write_calls_grow [of e rw p w] W by auto
  obtain cs2 where g2: "calls w2 = calls w1 @ cs2"
    using Writes_calls_grow [of cs rw1 w1] Ws by auto
  show ?case using rotated_trans [OF g1 g2] r1 r2 all by simp
qed

text \<open>
  C2. A call of \<open>Write\<close> rotates if and only if the size query succeeds and reports more
  than \<open>maxSize\<close>. When the size query fails, the call does not rotate, makes the
  underlying write as its only other call, and returns what that write returns. And a
  sequence of calls in which the size of the file plus the bytes written stays at or below
  \<open>maxSize\<close> never rotates.
\<close>

theorem rotation_iff_size_exceeds:
  "(rotated w (snd (snd (Write e rw p w))) \<longleftrightarrow> over e rw w) \<and>
   (\<forall>err. fst (Stat e (file rw) w) = Inl err \<longrightarrow>
      \<not> rotated w (snd (snd (Write e rw p w))) \<and>
      calls_since w (snd (snd (Write e rw p w))) = [CallStat, CallWrite p] \<and>
      fst (Write e rw p w) = fst (FileWrite e (file rw) p (logcall CallStat w))) \<and>
   (consistent rw w \<and>
    int (file_size w (filename rw)) + int (sum_list (map fst (fst (Writes cs rw w)))) \<le> maxSize rw \<longrightarrow>
      \<not> rotated w (snd (snd (Writes cs rw w))))"
proof (intro conjI allI impI)
  show "rotated w (snd (snd (Write e rw p w))) \<longleftrightarrow> over e rw w"
    by (rule rotated_iff_over)
next
  fix err
  assume "fst (Stat e (file rw) w) = Inl err"
  then have o: "\<not> over e rw w" by (simp add: over_def)
  show "\<not> rotated w (snd (snd (Write e rw p w)))"
    using o by (simp add: rotated_iff_over)
  show "calls_since w (snd (snd (Write e rw p w))) = [CallStat, CallWrite p]"
    using o by (rule Write_not_over_calls)
  show "fst (Write e rw p w) = fst (FileWrite e (file rw) p (logcall CallStat w))"
    using o by (simp add: Write_not_over)
next
  assume "consistent rw w \<and>
    int (file_size w (filename rw)) + int (sum_list (map fst (fst (Writes cs rw w)))) \<le> maxSize rw"
  then show "\<not> rotated w (snd (snd (Writes cs rw w)))"
    using Writes_no_rotation by blast
qed

lemma x_consistent0: "consistent x_rw0 (snd x_new)"
  by (simp add: consistent_def x_rw0_eq x_new_eq)

lemma x_consistent1: "consistent x_rw1 x_os1"
  by (simp add: consistent_def x_rw1_eq x_os1_eq)

theorem rotation_iff_size_exceeds_witness:
  "fst (Stat stat_broken (file x_rw1) x_os1) = Inl (Errno 5) \<and>
   \<not> rotated x_os1 (snd (snd (Write stat_broken x_rw1 [98] x_os1))) \<and>
   fst (Write stat_broken x_rw1 [98] x_os1) = (1, None) \<and>
   over calm x_rw1 x_os1 \<and>
   rotated x_os1 (snd (snd (Write calm x_rw1 [98] x_os1))) \<and>
   consistent x_rw0 (snd x_new) \<and>
   int (file_size (snd x_new) (filename x_rw0)) +
     int (sum_list (map fst (fst (Writes [(calm, replicate 50 97), (calm, replicate 50 98)]
                                    x_rw0 (snd x_new))))) \<le> maxSize x_rw0 \<and>
   \<not> rotated (snd x_new)
       (snd (snd (Writes [(calm, replicate 50 97), (calm, replicate 50 98)] x_rw0 (snd x_new))))"
proof -
  have s: "fst (Stat stat_broken (file x_rw1) x_os1) = Inl (Errno 5)"
    by (simp add: Stat_def stat_broken_def calm_def x_rw1_eq Let_def)
  have fw: "fst (FileWrite stat_broken (file x_rw1) [98] (logcall CallStat x_os1)) = (1, None)"
    by (simp add: FileWrite_def stat_broken_def calm_def x_rw1_eq Let_def)
  have rs: "map fst (fst (Writes [(calm, replicate 50 97), (calm, replicate 50 98)] x_rw0 (snd x_new)))
      = [50, 50]"
    by (simp add: Write_def Stat_def FileWrite_def write_at_def logcall_def calm_def x_rw0_eq x_new_eq
          Let_def)
  have sz: "file_size (snd x_new) (filename x_rw0) = 0"
    by (simp add: file_size_def content_def x_new_eq x_rw0_eq)
  have b: "int (file_size (snd x_new) (filename x_rw0)) +
     int (sum_list (map fst (fst (Writes [(calm, replicate 50 97), (calm, replicate 50 98)]
                                    x_rw0 (snd x_new))))) \<le> maxSize x_rw0"
    unfolding rs sz by (simp add: x_rw0_eq)
  note T1 = rotation_iff_size_exceeds [of x_os1 stat_broken x_rw1 "[98]" "[]"]
  note T2 = rotation_iff_size_exceeds [of x_os1 calm x_rw1 "[98]" "[]"]
  note T3 = rotation_iff_size_exceeds [of "snd x_new" calm x_rw0 "[]"
               "[(calm, replicate 50 97), (calm, replicate 50 98)]"]
  have c1: "\<not> rotated x_os1 (snd (snd (Write stat_broken x_rw1 [98] x_os1)))"
    using T1 s by blast
  have c2: "fst (Write stat_broken x_rw1 [98] x_os1) = (1, None)"
    using T1 s fw by simp
  have c3: "rotated x_os1 (snd (snd (Write calm x_rw1 [98] x_os1)))"
    using T2 x_over by blast
  have c4: "\<not> rotated (snd x_new)
       (snd (snd (Writes [(calm, replicate 50 97), (calm, replicate 50 98)] x_rw0 (snd x_new))))"
    using T3 x_consistent0 b by blast
  show ?thesis using s c1 c2 x_over c3 x_consistent0 b c4 by blast
qed

section \<open>Failures during rotation\<close>

lemma x_archive: "archive_name ''/tmp/x.log'' march5 = ''/tmp/x-20240305-090807.log''"
  by (simp add: archive_name_def Format_march5 Ext_spec spec_extension_def TrimSuffix_def
        HasSuffix_def Let_def)

text \<open>
  C5. When the call rotates and the rename of the file to its archive name fails, \<open>Write\<close>
  returns 0 bytes and the error of the rename, having called stat, close and rename and
  nothing else; the directory and every file's content are as before the call, so the
  file is still under its name; and the instance holds the closed file, no usable handle.
\<close>

theorem rename_failure_aborts:
  assumes "over e rw w" and "file rw = Some f"
    and "fst (Rename e (fname f) (archive_name (fname f) (now e)) w) = Some err"
  shows "fst (Write e rw p w) = (0, Some err) \<and>
         calls_since w (snd (snd (Write e rw p w))) =
           [CallStat, CallClose, CallRename (fname f) (archive_name (fname f) (now e))] \<and>
         names (snd (snd (Write e rw p w))) = names w \<and>
         inodes (snd (snd (Write e rw p w))) = inodes w \<and>
         content (snd (snd (Write e rw p w))) (fname f) = content w (fname f) \<and>
         file (fst (snd (Write e rw p w))) = Some (f\<lparr>closed := True\<rparr>) \<and>
         \<not> usable (fst (snd (Write e rw p w)))"
proof -
  from assms(1,2) have f: "file rw = Some f" "\<not> closed f" "stat_fault e = None"
      "maxSize rw < int (length (inodes w (ino f)))"
    by (auto simp: over_iff)
  show ?thesis
    by (simp add: Write_rename_fails [OF f assms(3)] calls_since_def content_def usable_def)
qed

theorem rename_failure_aborts_witness:
  "over rename_broken x_rw1 x_os1 \<and>
   fst (Rename rename_broken ''/tmp/x.log'' (archive_name ''/tmp/x.log'' (now rename_broken)) x_os1)
     = Some (Errno 13) \<and>
   fst (Write rename_broken x_rw1 [98] x_os1) = (0, Some (Errno 13)) \<and>
   content (snd (snd (Write rename_broken x_rw1 [98] x_os1))) ''/tmp/x.log'' = Some (replicate 101 97) \<and>
   \<not> usable (fst (snd (Write rename_broken x_rw1 [98] x_os1)))"
proof -
  have o: "over rename_broken x_rw1 x_os1"
    by (simp add: over_iff x_rw1_eq x_os1_eq rename_broken_def calm_def)
  have f: "file x_rw1 = Some \<lparr>fname = ''/tmp/x.log'', ino = 0, appendmode = True, pos = 101,
                               closed = False\<rparr>"
    by (simp add: x_rw1_eq)
  have r: "fst (Rename rename_broken ''/tmp/x.log'' (archive_name ''/tmp/x.log'' (now rename_broken)) x_os1)
     = Some (Errno 13)"
    by (simp add: Rename_def rename_broken_def calm_def Let_def)
  have c: "content x_os1 ''/tmp/x.log'' = Some (replicate 101 97)"
    by (simp add: content_def x_os1_eq)
  show ?thesis
    using rename_failure_aborts [of rename_broken x_rw1 x_os1 _ "Errno 13" "[98]", OF o f] r o c
    by simp
qed

text \<open>
  C6. \<open>New\<close> opens with create, append and write-only, and its file appends. The reopen
  of a rotation opens the instance's \<open>filename\<close> with create and write-only, without
  append, and the file it yields does not append. When the reopen fails, \<open>Write\<close> returns
  0 bytes and that error without calling the file write, the instance's file is nil, and
  the rename has happened: the archive name holds the old file, and the old name is gone
  unless the archive name was a link to that file already, when the rename changes
  nothing.
\<close>

theorem reopen_without_append:
  "calls (snd (New e0 fn m w0)) = calls w0 @ [CallOpenFile fn {O_CREATE, O_APPEND, O_WRONLY}] \<and>
   (\<forall>rw0 err0 w1. New e0 fn m w0 = ((Some rw0, err0), w1) \<longrightarrow>
        (\<exists>f0. file rw0 = Some f0 \<and> appendmode f0)) \<and>
   (over e rw w \<and> file rw = Some f \<and> rename_fault e = None \<and> names w (fname f) = Some i \<longrightarrow>
      take 4 (calls_since w (snd (snd (Write e rw p w)))) =
        [CallStat, CallClose, CallRename (fname f) (archive_name (fname f) (now e)),
         CallOpenFile (filename rw) {O_CREATE, O_WRONLY}] \<and>
      (open_fault e = None \<longrightarrow>
         (\<exists>f2. file (fst (snd (Write e rw p w))) = Some f2 \<and> \<not> appendmode f2)) \<and>
      (\<forall>err. open_fault e = Some err \<longrightarrow>
         fst (Write e rw p w) = (0, Some err) \<and>
         calls_since w (snd (snd (Write e rw p w))) =
           [CallStat, CallClose, CallRename (fname f) (archive_name (fname f) (now e)),
            CallOpenFile (filename rw) {O_CREATE, O_WRONLY}] \<and>
         file (fst (snd (Write e rw p w))) = None \<and>
         \<not> usable (fst (snd (Write e rw p w))) \<and>
         names (snd (snd (Write e rw p w))) (archive_name (fname f) (now e)) = Some i \<and>
         (names w (archive_name (fname f) (now e)) \<noteq> Some i \<longrightarrow>
            names (snd (snd (Write e rw p w))) (fname f) = None) \<and>
         (names w (archive_name (fname f) (now e)) = Some i \<longrightarrow>
            names (snd (snd (Write e rw p w))) = names w) \<and>
         inodes (snd (snd (Write e rw p w))) = inodes w))"
proof (intro conjI allI impI)
  show "calls (snd (New e0 fn m w0)) = calls w0 @ [CallOpenFile fn {O_CREATE, O_APPEND, O_WRONLY}]"
    by (simp add: New_def OpenFile_def logcall_def Let_def split: option.splits prod.splits)
next
  fix rw0 err0 w1
  assume "New e0 fn m w0 = ((Some rw0, err0), w1)"
  then show "\<exists>f0. file rw0 = Some f0 \<and> appendmode f0"
    by (auto simp: New_def OpenFile_def logcall_def Let_def split: option.splits prod.splits if_splits)
next
  assume a: "over e rw w \<and> file rw = Some f \<and> rename_fault e = None \<and> names w (fname f) = Some i"
  then have f: "file rw = Some f" "\<not> closed f" "stat_fault e = None"
      "maxSize rw < int (length (inodes w (ino f)))"
    and r: "rename_fault e = None" and i: "names w (fname f) = Some i"
    by (auto simp: over_iff)
  show "take 4 (calls_since w (snd (snd (Write e rw p w)))) =
        [CallStat, CallClose, CallRename (fname f) (archive_name (fname f) (now e)),
         CallOpenFile (filename rw) {O_CREATE, O_WRONLY}]"
  proof (cases "open_fault e")
    case (Some err)
    show ?thesis by (simp add: Write_reopen_fails [OF f r i Some] calls_since_def)
  next
    case None
    show ?thesis
      by (simp add: Write_rotates [OF f r i None] calls_since_def Let_def OpenFile_def None
            FileWrite_calls logcall_def split: option.splits)
  qed
  {
    assume n: "open_fault e = None"
    show "\<exists>f2. file (fst (snd (Write e rw p w))) = Some f2 \<and> \<not> appendmode f2"
      by (auto simp: Write_rotates [OF f r i n] Let_def OpenFile_def n FileWrite_def logcall_def
            split: option.splits)
  }
  {
    fix err assume s: "open_fault e = Some err"
    note W = Write_reopen_fails [OF f r i s, of p]
    show "fst (Write e rw p w) = (0, Some err)" by (simp add: W)
    show "calls_since w (snd (snd (Write e rw p w))) =
           [CallStat, CallClose, CallRename (fname f) (archive_name (fname f) (now e)),
            CallOpenFile (filename rw) {O_CREATE, O_WRONLY}]"
      by (simp add: W calls_since_def)
    show "file (fst (snd (Write e rw p w))) = None" by (simp add: W)
    show "\<not> usable (fst (snd (Write e rw p w)))" by (simp add: W usable_def)
    show "names (snd (snd (Write e rw p w))) (archive_name (fname f) (now e)) = Some i"
      by (simp add: W rename_dir_def)
    show "inodes (snd (snd (Write e rw p w))) = inodes w" by (simp add: W)
    {
      assume "names w (archive_name (fname f) (now e)) \<noteq> Some i"
      then show "names (snd (snd (Write e rw p w))) (fname f) = None"
        using archive_name_neq [of "fname f" "now e"] by (simp add: W rename_dir_def)
    }
    {
      assume "names w (archive_name (fname f) (now e)) = Some i"
      then show "names (snd (snd (Write e rw p w))) = names w"
        by (simp add: W rename_dir_def)
    }
  }
qed

lemma x_link_names:
  "names x_os_link ''/tmp/x.log'' = Some 0"
  "names x_os_link ''/tmp/x-20240305-090807.log'' = Some 0"
  "inodes x_os_link = inodes x_os1"
  by (simp_all add: x_os_link_def x_os1_eq)

lemma x_link_over: "stat_fault e = None \<Longrightarrow> over e x_rw1 x_os_link"
  by (simp add: over_iff x_rw1_eq x_os_link_def x_os1_eq)

lemma x_link_consistent: "consistent x_rw1 x_os_link"
  by (simp add: consistent_def x_rw1_eq x_os_link_def x_os1_eq)

theorem reopen_without_append_witness:
  "over open_broken x_rw1 x_os1 \<and> rename_fault open_broken = None \<and>
   names x_os1 ''/tmp/x.log'' = Some 0 \<and> open_fault open_broken = Some (Errno 24) \<and>
   names x_os1 ''/tmp/x-20240305-090807.log'' \<noteq> Some 0 \<and>
   fst (Write open_broken x_rw1 [98] x_os1) = (0, Some (Errno 24)) \<and>
   file (fst (snd (Write open_broken x_rw1 [98] x_os1))) = None \<and>
   names (snd (snd (Write open_broken x_rw1 [98] x_os1))) ''/tmp/x-20240305-090807.log'' = Some 0 \<and>
   names (snd (snd (Write open_broken x_rw1 [98] x_os1))) ''/tmp/x.log'' = None \<and>
   over open_broken x_rw1 x_os_link \<and> names x_os_link ''/tmp/x.log'' = Some 0 \<and>
   names x_os_link ''/tmp/x-20240305-090807.log'' = Some 0 \<and>
   fst (Write open_broken x_rw1 [98] x_os_link) = (0, Some (Errno 24)) \<and>
   names (snd (snd (Write open_broken x_rw1 [98] x_os_link))) = names x_os_link \<and>
   over calm x_rw1 x_os1 \<and> open_fault calm = None \<and>
   (\<exists>f2. file (fst (snd (Write calm x_rw1 [98] x_os1))) = Some f2 \<and> \<not> appendmode f2) \<and>
   (\<exists>f0. file x_rw0 = Some f0 \<and> appendmode f0)"
proof -
  let ?f = "\<lparr>fname = ''/tmp/x.log'', ino = 0, appendmode = True, pos = 101, closed = False\<rparr>"
  let ?a = "archive_name (fname ?f) (now open_broken)"
  have sf: "stat_fault open_broken = None" by (simp add: open_broken_def calm_def)
  have o: "over open_broken x_rw1 x_os1"
    by (simp add: over_iff x_rw1_eq x_os1_eq open_broken_def calm_def)
  have ol: "over open_broken x_rw1 x_os_link" using sf by (rule x_link_over)
  have f: "file x_rw1 = Some ?f" by (simp add: x_rw1_eq)
  have r: "rename_fault open_broken = None" "rename_fault calm = None"
    by (simp_all add: open_broken_def calm_def)
  have i: "names x_os1 (fname ?f) = Some 0" by (simp add: x_os1_eq)
  have il: "names x_os_link (fname ?f) = Some 0" by (simp add: x_link_names)
  have s: "open_fault open_broken = Some (Errno 24)" by (simp add: open_broken_def)
  have n: "open_fault calm = None" by (simp add: calm_def)
  have t: "?a = ''/tmp/x-20240305-090807.log''"
    by (simp add: open_broken_def calm_def x_archive)
  have na: "names x_os1 ?a \<noteq> Some 0" unfolding t by (simp add: x_os1_eq)
  have nl: "names x_os_link ?a = Some 0" unfolding t by (simp add: x_link_names)
  have nw: "New calm ''/tmp/x.log'' 100 empty_os = ((Some x_rw0, None), snd x_new)"
    using x_new_eq by (simp add: x_new_def x_rw0_eq)
  note T1 = reopen_without_append [of calm "''/tmp/x.log''" 100 empty_os open_broken x_rw1 x_os1 ?f 0 "[98]"]
  note T2 = reopen_without_append [of calm "''/tmp/x.log''" 100 empty_os calm x_rw1 x_os1 ?f 0 "[98]"]
  note T3 = reopen_without_append [of calm "''/tmp/x.log''" 100 empty_os open_broken x_rw1 x_os_link ?f 0 "[98]"]
  have a: "fst (Write open_broken x_rw1 [98] x_os1) = (0, Some (Errno 24)) \<and>
   file (fst (snd (Write open_broken x_rw1 [98] x_os1))) = None \<and>
   names (snd (snd (Write open_broken x_rw1 [98] x_os1))) ?a = Some 0 \<and>
   names (snd (snd (Write open_broken x_rw1 [98] x_os1))) (fname ?f) = None"
    using T1 o f r i s na by blast
  have l: "fst (Write open_broken x_rw1 [98] x_os_link) = (0, Some (Errno 24)) \<and>
   names (snd (snd (Write open_broken x_rw1 [98] x_os_link))) = names x_os_link"
    using T3 ol f r il s nl by blast
  have b: "\<exists>f2. file (fst (snd (Write calm x_rw1 [98] x_os1))) = Some f2 \<and> \<not> appendmode f2"
    using T2 x_over f r i n by blast
  have c: "\<exists>f0. file x_rw0 = Some f0 \<and> appendmode f0"
    using T1 nw by blast
  have na': "names x_os1 ''/tmp/x-20240305-090807.log'' \<noteq> Some 0" using na unfolding t .
  have a': "names (snd (snd (Write open_broken x_rw1 [98] x_os1))) ''/tmp/x-20240305-090807.log'' = Some 0"
    using a unfolding t by blast
  have a'': "names (snd (snd (Write open_broken x_rw1 [98] x_os1))) ''/tmp/x.log'' = None"
    using a by simp
  show ?thesis using a a' a'' l b c o ol r i s n na' x_over x_link_names by simp
qed

section \<open>The instance without a usable handle\<close>

lemma Stat_unusable:
  "\<not> usable rw \<Longrightarrow>
   fst (Stat e (file rw) w) = Inl (case file rw of None \<Rightarrow> ErrInvalid | Some _ \<Rightarrow> ErrClosed)"
  by (auto simp: usable_def Stat_def Let_def split: option.splits)

lemma unusable_not_over: "\<not> usable rw \<Longrightarrow> \<not> over e rw w"
  by (auto simp: over_iff usable_def)

lemma Write_unusable:
  assumes "\<not> usable rw"
  shows "Write e rw p w =
           ((0, Some (case file rw of None \<Rightarrow> ErrInvalid | Some _ \<Rightarrow> ErrClosed)), rw,
            w\<lparr>calls := calls w @ [CallStat, CallWrite p]\<rparr>)"
proof -
  have u: "case file rw of None \<Rightarrow> True | Some f \<Rightarrow> closed f"
    using assms by (auto simp: usable_def split: option.splits)
  show ?thesis
    by (simp add: Write_not_over [OF unusable_not_over [OF assms]] FileWrite_unusable [OF u]
          logcall_def split: option.splits)
qed

lemma Writes_unusable:
  assumes "\<not> usable rw"
  shows "fst (snd (Writes cs rw w)) = rw \<and>
         fst (Writes cs rw w) =
           map (\<lambda>c. (0, Some (case file rw of None \<Rightarrow> ErrInvalid | Some _ \<Rightarrow> ErrClosed))) cs \<and>
         snd (snd (Writes cs rw w)) =
           w\<lparr>calls := calls w @ concat (map (\<lambda>c. [CallStat, CallWrite (snd c)]) cs)\<rparr>"
proof (induction cs arbitrary: w)
  case Nil
  show ?case by simp
next
  case (Cons c cs)
  obtain e p where c: "c = (e, p)" by (cases c)
  show ?case
    using Cons.IH [of "w\<lparr>calls := calls w @ [CallStat, CallWrite p]\<rparr>"]
    by (simp add: c Write_unusable [OF assms] case_prod_beta)
qed

text \<open>
  C7. A failed rename and a failed reopen both leave the instance without a usable handle.
  From then on every call of \<open>Write\<close> fails its size query, does not rotate, makes the
  underlying write, which fails, and returns 0 bytes and an error, leaving the instance as
  it was; so does every sequence of calls, and the directory and the files stay as they
  are. Nothing but a new instance recovers.
\<close>

theorem broken_never_recovers:
  "(over e1 rw1 w1 \<and> file rw1 = Some f1 \<and>
    fst (Rename e1 (fname f1) (archive_name (fname f1) (now e1)) w1) = Some err1 \<longrightarrow>
      \<not> usable (fst (snd (Write e1 rw1 p1 w1)))) \<and>
   (over e2 rw2 w2 \<and> file rw2 = Some f2 \<and> rename_fault e2 = None \<and>
    names w2 (fname f2) = Some i2 \<and> open_fault e2 = Some err2 \<longrightarrow>
      \<not> usable (fst (snd (Write e2 rw2 p2 w2)))) \<and>
   (\<not> usable rw \<longrightarrow>
      (\<exists>err. fst (Stat e (file rw) w) = Inl err) \<and>
      calls_since w (snd (snd (Write e rw p w))) = [CallStat, CallWrite p] \<and>
      \<not> rotated w (snd (snd (Write e rw p w))) \<and>
      (\<exists>err. fst (Write e rw p w) = (0, Some err)) \<and>
      fst (snd (Write e rw p w)) = rw \<and>
      fst (snd (Writes cs rw w)) = rw \<and>
      (\<forall>r \<in> set (fst (Writes cs rw w)). fst r = 0 \<and> snd r \<noteq> None) \<and>
      length (fst (Writes cs rw w)) = length cs \<and>
      \<not> rotated w (snd (snd (Writes cs rw w))) \<and>
      names (snd (snd (Writes cs rw w))) = names w \<and>
      inodes (snd (snd (Writes cs rw w))) = inodes w)"
proof (intro conjI impI)
  assume a: "over e1 rw1 w1 \<and> file rw1 = Some f1 \<and>
    fst (Rename e1 (fname f1) (archive_name (fname f1) (now e1)) w1) = Some err1"
  then have f: "file rw1 = Some f1" "\<not> closed f1" "stat_fault e1 = None"
      "maxSize rw1 < int (length (inodes w1 (ino f1)))"
    by (auto simp: over_iff)
  from a have r: "fst (Rename e1 (fname f1) (archive_name (fname f1) (now e1)) w1) = Some err1"
    by simp
  show "\<not> usable (fst (snd (Write e1 rw1 p1 w1)))"
    by (simp add: Write_rename_fails [OF f r] usable_def)
next
  assume a: "over e2 rw2 w2 \<and> file rw2 = Some f2 \<and> rename_fault e2 = None \<and>
    names w2 (fname f2) = Some i2 \<and> open_fault e2 = Some err2"
  then have f: "file rw2 = Some f2" "\<not> closed f2" "stat_fault e2 = None"
      "maxSize rw2 < int (length (inodes w2 (ino f2)))"
    by (auto simp: over_iff)
  from a have r: "rename_fault e2 = None" "names w2 (fname f2) = Some i2" "open_fault e2 = Some err2"
    by simp_all
  show "\<not> usable (fst (snd (Write e2 rw2 p2 w2)))"
    by (simp add: Write_reopen_fails [OF f r] usable_def)
next
  assume u: "\<not> usable rw"
  note W = Write_unusable [OF u, of e p w]
  note Ws = Writes_unusable [OF u, of cs w]
  show "\<exists>err. fst (Stat e (file rw) w) = Inl err"
    using Stat_unusable [OF u] by blast
  show "calls_since w (snd (snd (Write e rw p w))) = [CallStat, CallWrite p]"
    by (simp add: W calls_since_def)
  show "\<not> rotated w (snd (snd (Write e rw p w)))"
    by (simp add: W calls_since_def rotated_def)
  show "\<exists>err. fst (Write e rw p w) = (0, Some err)" by (simp add: W)
  show "fst (snd (Write e rw p w)) = rw" by (simp add: W)
  show "fst (snd (Writes cs rw w)) = rw" using Ws by simp
  show "\<forall>r \<in> set (fst (Writes cs rw w)). fst r = 0 \<and> snd r \<noteq> None"
    using Ws by auto
  show "length (fst (Writes cs rw w)) = length cs" using Ws by simp
  show "names (snd (snd (Writes cs rw w))) = names w" using Ws by simp
  show "inodes (snd (snd (Writes cs rw w))) = inodes w" using Ws by simp
  have "\<not> list_ex is_rename (concat (map (\<lambda>c. [CallStat, CallWrite (snd c)]) cs))"
    by (induction cs) simp_all
  then show "\<not> rotated w (snd (snd (Writes cs rw w)))"
    using Ws by (simp add: rotated_def calls_since_def)
qed

lemma x_over_env: "stat_fault e = None \<Longrightarrow> over e x_rw1 x_os1"
  by (simp add: over_iff x_rw1_eq x_os1_eq)

lemma x_file1: "file x_rw1 = Some \<lparr>fname = ''/tmp/x.log'', ino = 0, appendmode = True, pos = 101,
                               closed = False\<rparr>"
  by (simp add: x_rw1_eq)

theorem broken_never_recovers_witness:
  "over rename_broken x_rw1 x_os1 \<and> over open_broken x_rw1 x_os1 \<and>
   \<not> usable x_rw_closed \<and> \<not> usable x_rw_nil \<and>
   fst (Writes [(calm, [98]), (calm, [99])] x_rw_closed x_os1) =
      [(0, Some ErrClosed), (0, Some ErrClosed)] \<and>
   fst (Writes [(calm, [98]), (calm, [99])] x_rw_nil x_os1) =
      [(0, Some ErrInvalid), (0, Some ErrInvalid)] \<and>
   fst (snd (Writes [(calm, [98]), (calm, [99])] x_rw_nil x_os1)) = x_rw_nil \<and>
   \<not> rotated x_os1 (snd (snd (Writes [(calm, [98]), (calm, [99])] x_rw_nil x_os1)))"
proof -
  let ?f = "\<lparr>fname = ''/tmp/x.log'', ino = 0, appendmode = True, pos = 101, closed = False\<rparr>"
  let ?cs = "[(calm, [98]), (calm, [99])]"
  have o1: "over rename_broken x_rw1 x_os1"
    by (rule x_over_env) (simp add: rename_broken_def calm_def)
  have o2: "over open_broken x_rw1 x_os1"
    by (rule x_over_env) (simp add: open_broken_def calm_def)
  have r1: "fst (Rename rename_broken (fname ?f) (archive_name (fname ?f) (now rename_broken)) x_os1)
     = Some (Errno 13)"
    by (simp add: Rename_def rename_broken_def calm_def Let_def)
  have r2: "rename_fault open_broken = None" "names x_os1 (fname ?f) = Some 0"
      "open_fault open_broken = Some (Errno 24)"
    by (simp_all add: open_broken_def calm_def x_os1_eq)
  note T = broken_never_recovers [of rename_broken x_rw1 x_os1 ?f "Errno 13" "[98]"
      open_broken x_rw1 x_os1 ?f 0 "Errno 24" "[98]"]
  have u1: "\<not> usable x_rw_closed"
    unfolding x_rw_closed_def using T o1 x_file1 r1 by blast
  have u2: "\<not> usable x_rw_nil"
    unfolding x_rw_nil_def using T o2 x_file1 r2 by blast
  have nc: "\<not> closed ?f" by simp
  have sf: "stat_fault rename_broken = None" "stat_fault open_broken = None"
    by (simp_all add: rename_broken_def open_broken_def calm_def)
  have ms: "maxSize x_rw1 < int (length (inodes x_os1 (ino ?f)))"
    by (simp add: x_rw1_eq x_os1_eq)
  have f1: "file x_rw_closed = Some (?f\<lparr>closed := True\<rparr>)"
    unfolding x_rw_closed_def
    by (simp add: Write_rename_fails [OF x_file1 nc sf(1) ms r1])
  have f2: "file x_rw_nil = None"
    unfolding x_rw_nil_def
    by (simp add: Write_reopen_fails [OF x_file1 nc sf(2) ms r2])
  have a: "fst (Writes ?cs x_rw_closed x_os1) = [(0, Some ErrClosed), (0, Some ErrClosed)]"
    using Writes_unusable [OF u1, of ?cs x_os1] by (simp add: f1 del: Writes.simps)
  have b: "fst (Writes ?cs x_rw_nil x_os1) = [(0, Some ErrInvalid), (0, Some ErrInvalid)]"
    using Writes_unusable [OF u2, of ?cs x_os1] by (simp add: f2 del: Writes.simps)
  note T2 = broken_never_recovers [of rename_broken x_rw1 x_os1 ?f "Errno 13" "[98]"
      open_broken x_rw1 x_os1 ?f 0 "Errno 24" "[98]" x_rw_nil calm x_os1 "[98]" ?cs]
  have c: "fst (snd (Writes ?cs x_rw_nil x_os1)) = x_rw_nil"
    using T2 u2 by blast
  have d: "\<not> rotated x_os1 (snd (snd (Writes ?cs x_rw_nil x_os1)))"
    using T2 u2 by blast
  show ?thesis using o1 o2 u1 u2 a b c d by blast
qed

section \<open>The file under the instance's name\<close>

lemma FileWrite_names: "names (snd (snd (FileWrite e fo p w))) = names w"
  by (simp add: FileWrite_def logcall_def Let_def split: option.splits prod.splits)

lemma Rename_fst:
  "fst (Rename e a b w) =
     (case rename_fault e of
        Some err \<Rightarrow> Some err
      | None \<Rightarrow> (case names w a of None \<Rightarrow> Some ENOENT | Some _ \<Rightarrow> None))"
  by (simp add: Rename_def logcall_def Let_def split: option.splits)

lemma New_names:
  "New e fn m w = ((Some rw, err), w') \<Longrightarrow> names w' fn \<noteq> None \<and> filename rw = fn"
  by (auto simp: New_def OpenFile_def logcall_def Let_def split: option.splits prod.splits if_splits)

lemma Write_keeps_path:
  assumes n: "names w (filename rw) \<noteq> None"
    and r: "\<not> (reopen_fails e rw w \<and> rename_moves e rw w)"
  shows "names (snd (snd (Write e rw p w))) (filename rw) \<noteq> None"
proof (cases "over e rw w")
  case False
  show ?thesis using n by (simp add: Write_not_over [OF False] FileWrite_names logcall_def)
next
  case True
  then obtain f where f: "file rw = Some f" "\<not> closed f" "stat_fault e = None"
      "maxSize rw < int (length (inodes w (ino f)))"
    by (auto simp: over_iff)
  let ?a = "archive_name (fname f) (now e)"
  show ?thesis
  proof (cases "fst (Rename e (fname f) ?a w)")
    case (Some err)
    show ?thesis using n by (simp add: Write_rename_fails [OF f Some])
  next
    case None
    then obtain i where i: "rename_fault e = None" "names w (fname f) = Some i"
      by (auto simp: Rename_fst split: option.splits)
    show ?thesis
    proof (cases "open_fault e")
      case o: None
      show ?thesis
        by (simp add: Write_rotates [OF f i o] Let_def FileWrite_names OpenFile_def o logcall_def
              split: option.splits)
    next
      case (Some err)
      then have "reopen_fails e rw w"
        using True f(1) None by (simp add: reopen_fails_def)
      then have "\<not> rename_moves e rw w" using r by blast
      then have "names w ?a = Some i" using f(1) i by (simp add: rename_moves_def)
      then show ?thesis
        using n by (simp add: Write_reopen_fails [OF f i Some] rename_dir_def)
    qed
  qed
qed

lemma Write_reopen_error:
  assumes r: "reopen_fails e rw w"
  shows "fst (Write e rw p w) = (0, open_fault e) \<and> open_fault e \<noteq> None \<and>
         file (fst (snd (Write e rw p w))) = None"
proof -
  from r have o: "over e rw w" by (simp add: reopen_fails_def)
  then obtain f where f: "file rw = Some f" "\<not> closed f" "stat_fault e = None"
      "maxSize rw < int (length (inodes w (ino f)))"
    by (auto simp: over_iff)
  from r f(1) have "fst (Rename e (fname f) (archive_name (fname f) (now e)) w) = None"
    by (simp add: reopen_fails_def)
  then obtain i where i: "rename_fault e = None" "names w (fname f) = Some i"
    by (auto simp: Rename_fst split: option.splits)
  from r obtain err where e: "open_fault e = Some err" by (auto simp: reopen_fails_def)
  show ?thesis by (simp add: Write_reopen_fails [OF f i e] e)
qed

lemma Write_loses_path:
  assumes c: "consistent rw w" and r: "reopen_fails e rw w" and m: "rename_moves e rw w"
  shows "names (snd (snd (Write e rw p w))) (filename rw) = None"
proof -
  from r have o: "over e rw w" by (simp add: reopen_fails_def)
  then obtain f where f: "file rw = Some f" "\<not> closed f" "stat_fault e = None"
      "maxSize rw < int (length (inodes w (ino f)))"
    by (auto simp: over_iff)
  have nm: "fname f = filename rw" using consistent_file [OF c f(1)] by simp
  from r f(1) have "fst (Rename e (fname f) (archive_name (fname f) (now e)) w) = None"
    by (simp add: reopen_fails_def)
  then obtain i where i: "rename_fault e = None" "names w (fname f) = Some i"
    by (auto simp: Rename_fst split: option.splits)
  from r obtain err where e: "open_fault e = Some err" by (auto simp: reopen_fails_def)
  have "names w (archive_name (fname f) (now e)) \<noteq> Some i"
    using m f(1) i by (simp add: rename_moves_def)
  then show ?thesis
    using archive_name_neq [of "fname f" "now e"] nm
    by (simp add: Write_reopen_fails [OF f i e] rename_dir_def)
qed

text \<open>
  C4, as the code has it. After a successful \<open>New\<close> the file under the name exists. A
  call of \<open>Write\<close> that starts with the file existing ends with it existing, unless the
  call rotates, its rename moves the file to the archive name and its reopen fails. A call
  whose reopen fails returns 0 bytes and the error of the reopen and leaves the instance's
  file nil; when its rename has moved the file, on a consistent instance, the name is
  gone.
\<close>

theorem path_exists_unless_reopen_fails:
  "(\<forall>rw0 err0 w1. New e0 fn m w0 = ((Some rw0, err0), w1) \<longrightarrow>
       names w1 fn \<noteq> None \<and> filename rw0 = fn) \<and>
   (names w (filename rw) \<noteq> None \<and> \<not> (reopen_fails e rw w \<and> rename_moves e rw w) \<longrightarrow>
       names (snd (snd (Write e rw p w))) (filename rw) \<noteq> None) \<and>
   (reopen_fails e rw w \<longrightarrow>
       fst (Write e rw p w) = (0, open_fault e) \<and> open_fault e \<noteq> None \<and>
       file (fst (snd (Write e rw p w))) = None) \<and>
   (consistent rw w \<and> reopen_fails e rw w \<and> rename_moves e rw w \<longrightarrow>
       names (snd (snd (Write e rw p w))) (filename rw) = None)"
proof (intro conjI allI impI)
  fix rw0 err0 w1
  assume "New e0 fn m w0 = ((Some rw0, err0), w1)"
  then show "names w1 fn \<noteq> None" "filename rw0 = fn" using New_names by blast+
next
  assume "names w (filename rw) \<noteq> None \<and> \<not> (reopen_fails e rw w \<and> rename_moves e rw w)"
  then show "names (snd (snd (Write e rw p w))) (filename rw) \<noteq> None"
    using Write_keeps_path by blast
next
  assume r: "reopen_fails e rw w"
  show "fst (Write e rw p w) = (0, open_fault e)" using Write_reopen_error [OF r] by blast
  show "open_fault e \<noteq> None" using Write_reopen_error [OF r] by blast
  show "file (fst (snd (Write e rw p w))) = None" using Write_reopen_error [OF r] by blast
next
  assume "consistent rw w \<and> reopen_fails e rw w \<and> rename_moves e rw w"
  then show "names (snd (snd (Write e rw p w))) (filename rw) = None"
    using Write_loses_path by blast
qed

theorem path_exists_unless_reopen_fails_witness:
  "names x_os1 (filename x_rw1) \<noteq> None \<and> \<not> reopen_fails calm x_rw1 x_os1 \<and>
   names (snd (snd (Write calm x_rw1 [98] x_os1))) (filename x_rw1) \<noteq> None \<and>
   consistent x_rw1 x_os1 \<and> reopen_fails open_broken x_rw1 x_os1 \<and>
   rename_moves open_broken x_rw1 x_os1 \<and>
   fst (Write open_broken x_rw1 [98] x_os1) = (0, Some (Errno 24)) \<and>
   names (snd (snd (Write open_broken x_rw1 [98] x_os1))) (filename x_rw1) = None \<and>
   names x_os_link (filename x_rw1) \<noteq> None \<and> reopen_fails open_broken x_rw1 x_os_link \<and>
   \<not> rename_moves open_broken x_rw1 x_os_link \<and>
   fst (Write open_broken x_rw1 [98] x_os_link) = (0, Some (Errno 24)) \<and>
   names (snd (snd (Write open_broken x_rw1 [98] x_os_link))) (filename x_rw1) \<noteq> None \<and>
   New calm ''/tmp/x.log'' 100 empty_os = ((Some x_rw0, None), snd x_new) \<and>
   names (snd x_new) ''/tmp/x.log'' \<noteq> None"
proof -
  have n: "names x_os1 (filename x_rw1) \<noteq> None" by (simp add: x_os1_eq x_rw1_eq)
  have nl: "names x_os_link (filename x_rw1) \<noteq> None" by (simp add: x_link_names x_rw1_eq)
  have r: "\<not> reopen_fails calm x_rw1 x_os1" by (simp add: reopen_fails_def calm_def)
  have sf: "stat_fault open_broken = None" "open_fault open_broken = Some (Errno 24)"
    "now open_broken = march5"
    by (simp_all add: open_broken_def calm_def)
  have o: "over open_broken x_rw1 x_os1" using sf(1) by (rule x_over_env)
  have ol: "over open_broken x_rw1 x_os_link" using sf(1) by (rule x_link_over)
  have rf: "reopen_fails open_broken x_rw1 x_os1"
    using o by (simp add: reopen_fails_def x_file1 Rename_fst)
       (simp add: open_broken_def calm_def x_os1_eq)
  have rfl: "reopen_fails open_broken x_rw1 x_os_link"
    using ol by (simp add: reopen_fails_def x_file1 Rename_fst)
       (simp add: open_broken_def calm_def x_link_names)
  have mv: "rename_moves open_broken x_rw1 x_os1"
    by (simp add: rename_moves_def x_file1 sf x_archive x_os1_eq)
  have mvl: "\<not> rename_moves open_broken x_rw1 x_os_link"
    by (simp add: rename_moves_def x_file1 sf x_archive x_link_names)
  have nw: "New calm ''/tmp/x.log'' 100 empty_os = ((Some x_rw0, None), snd x_new)"
    using x_new_eq by (simp add: x_new_def x_rw0_eq)
  note T1 = path_exists_unless_reopen_fails [of calm "''/tmp/x.log''" 100 empty_os x_os1 x_rw1 calm "[98]"]
  note T2 = path_exists_unless_reopen_fails [of calm "''/tmp/x.log''" 100 empty_os x_os1 x_rw1 open_broken "[98]"]
  note T3 = path_exists_unless_reopen_fails [of calm "''/tmp/x.log''" 100 empty_os x_os_link x_rw1 open_broken "[98]"]
  have a: "names (snd (snd (Write calm x_rw1 [98] x_os1))) (filename x_rw1) \<noteq> None"
    using T1 n r by blast
  have b: "names (snd (snd (Write open_broken x_rw1 [98] x_os1))) (filename x_rw1) = None"
    using T2 x_consistent1 rf mv by blast
  have "fst (Write open_broken x_rw1 [98] x_os1) = (0, open_fault open_broken)"
    using T2 rf by blast
  then have b': "fst (Write open_broken x_rw1 [98] x_os1) = (0, Some (Errno 24))"
    by (simp add: sf)
  have d: "names (snd (snd (Write open_broken x_rw1 [98] x_os_link))) (filename x_rw1) \<noteq> None"
    using T3 nl mvl by blast
  have "fst (Write open_broken x_rw1 [98] x_os_link) = (0, open_fault open_broken)"
    using T3 rfl by blast
  then have d': "fst (Write open_broken x_rw1 [98] x_os_link) = (0, Some (Errno 24))"
    by (simp add: sf)
  have c: "names (snd x_new) ''/tmp/x.log'' \<noteq> None"
    using T1 nw by blast
  show ?thesis using n r a x_consistent1 rf mv b b' nl rfl mvl d d' nw c by blast
qed

text \<open>
  C4 as stated fails: constructed on \<^verbatim>\<open>/tmp/x.log\<close> with threshold 100 and written 101
  bytes, the instance rotates on the next \<open>Write\<close>; when the reopen fails, that call
  completes with an error and no file is under \<^verbatim>\<open>/tmp/x.log\<close>.
\<close>

theorem path_missing_after_failed_reopen:
  "fst x_new = (Some x_rw0, None) \<and> fst x_first = (101, None) \<and>
   filename x_rw1 = ''/tmp/x.log'' \<and> names x_os1 ''/tmp/x.log'' = Some 0 \<and>
   fst (Write open_broken x_rw1 [98] x_os1) = (0, Some (Errno 24)) \<and>
   names (snd (snd (Write open_broken x_rw1 [98] x_os1))) ''/tmp/x.log'' = None"
proof -
  let ?f = "\<lparr>fname = ''/tmp/x.log'', ino = 0, appendmode = True, pos = 101, closed = False\<rparr>"
  have nc: "\<not> closed ?f" by simp
  have sf: "stat_fault open_broken = None" by (simp add: open_broken_def calm_def)
  have ms: "maxSize x_rw1 < int (length (inodes x_os1 (ino ?f)))"
    by (simp add: x_rw1_eq x_os1_eq)
  have r2: "rename_fault open_broken = None" "names x_os1 (fname ?f) = Some 0"
      "open_fault open_broken = Some (Errno 24)"
    by (simp_all add: open_broken_def calm_def x_os1_eq)
  note W = Write_reopen_fails [OF x_file1 nc sf ms r2, of "[98]"]
  have t: "now open_broken = march5" by (simp add: open_broken_def calm_def)
  have a: "fst x_new = (Some x_rw0, None)" by (simp add: x_new_eq x_rw0_eq)
  have b: "fst x_first = (101, None)" by (simp add: x_first_eq)
  have c: "filename x_rw1 = ''/tmp/x.log''" by (simp add: x_rw1_eq)
  have d: "names x_os1 ''/tmp/x.log'' = Some 0" by (simp add: x_os1_eq)
  have e: "fst (Write open_broken x_rw1 [98] x_os1) = (0, Some (Errno 24))" by (simp add: W)
  have f: "names (snd (snd (Write open_broken x_rw1 [98] x_os1))) ''/tmp/x.log'' = None"
    unfolding W by (simp add: t x_archive rename_dir_def x_os1_eq)
  show ?thesis using a b c d e f by blast
qed

section \<open>The scenario of the specification\<close>

lemma x_archive_at: "archive_name ''/tmp/x.log'' t = ''/tmp/x-'' @ Format t @ ''.log''"
  by (simp add: archive_name_def Ext_spec spec_extension_def TrimSuffix_def HasSuffix_def Let_def)

text \<open>
  C9. \<open>New\<close> on \<^verbatim>\<open>/tmp/x.log\<close> with threshold 100, the file empty. The first \<open>Write\<close>,
  of 101 bytes \<^verbatim>\<open>'a'\<close>, returns 101 and no error and makes a size query and a write: no
  rotation. The second, of the byte \<^verbatim>\<open>'b'\<close> at any time \<open>t\<close>, finds the size over the
  threshold, closes, renames \<^verbatim>\<open>/tmp/x.log\<close> to \<^verbatim>\<open>/tmp/x-\<close>timestamp\<^verbatim>\<open>.log\<close>, reopens
  \<^verbatim>\<open>/tmp/x.log\<close> and writes: afterwards the archive holds the 101 bytes \<^verbatim>\<open>'a'\<close> and
  \<^verbatim>\<open>/tmp/x.log\<close> holds \<^verbatim>\<open>'b'\<close>.
\<close>

theorem scenario_x_log:
  "fst x_new = (Some x_rw0, None) \<and> filename x_rw0 = ''/tmp/x.log'' \<and> maxSize x_rw0 = 100 \<and>
   content (snd x_new) ''/tmp/x.log'' = Some [] \<and>
   fst x_first = (101, None) \<and>
   calls_since (snd x_new) x_os1 = [CallStat, CallWrite (replicate 101 97)] \<and>
   \<not> rotated (snd x_new) x_os1 \<and>
   content x_os1 ''/tmp/x.log'' = Some (replicate 101 97) \<and>
   over (calm\<lparr>now := t\<rparr>) x_rw1 x_os1 \<and>
   fst (Write (calm\<lparr>now := t\<rparr>) x_rw1 [98] x_os1) = (1, None) \<and>
   calls_since x_os1 (snd (snd (Write (calm\<lparr>now := t\<rparr>) x_rw1 [98] x_os1))) =
     [CallStat, CallClose, CallRename ''/tmp/x.log'' (''/tmp/x-'' @ Format t @ ''.log''),
      CallOpenFile ''/tmp/x.log'' {O_CREATE, O_WRONLY}, CallWrite [98]] \<and>
   content (snd (snd (Write (calm\<lparr>now := t\<rparr>) x_rw1 [98] x_os1))) (''/tmp/x-'' @ Format t @ ''.log'')
     = Some (replicate 101 97) \<and>
   content (snd (snd (Write (calm\<lparr>now := t\<rparr>) x_rw1 [98] x_os1))) ''/tmp/x.log'' = Some [98]"
proof -
  let ?e = "calm\<lparr>now := t\<rparr>"
  let ?f = "\<lparr>fname = ''/tmp/x.log'', ino = 0, appendmode = True, pos = 101, closed = False\<rparr>"
  let ?a = "''/tmp/x-'' @ Format t @ ''.log''"
  have a: "fst x_new = (Some x_rw0, None)" by (simp add: x_new_eq x_rw0_eq)
  have b: "filename x_rw0 = ''/tmp/x.log''" "maxSize x_rw0 = 100" by (simp_all add: x_rw0_eq)
  have c: "content (snd x_new) ''/tmp/x.log'' = Some []" by (simp add: x_new_eq content_def)
  have d: "fst x_first = (101, None)" by (simp add: x_first_eq)
  have e: "calls_since (snd x_new) x_os1 = [CallStat, CallWrite (replicate 101 97)]"
    by (simp add: calls_since_def x_new_eq x_os1_eq)
  then have f: "\<not> rotated (snd x_new) x_os1" by (simp add: rotated_def)
  have g: "content x_os1 ''/tmp/x.log'' = Some (replicate 101 97)"
    by (simp add: content_def x_os1_eq)
  have o: "over ?e x_rw1 x_os1" by (rule x_over_env) (simp add: calm_def)
  have nc: "\<not> closed ?f" by simp
  have sf: "stat_fault ?e = None" "rename_fault ?e = None" "open_fault ?e = None"
    by (simp_all add: calm_def)
  have ms: "maxSize x_rw1 < int (length (inodes x_os1 (ino ?f)))"
    by (simp add: x_rw1_eq x_os1_eq)
  have i: "names x_os1 (fname ?f) = Some 0" by (simp add: x_os1_eq)
  have ne: "''/tmp/x.log'' \<noteq> ?a" by simp
  note W = Write_rotates [OF x_file1 nc sf(1) ms sf(2) i sf(3), of "[98]"]
  note defs = x_archive_at Let_def OpenFile_def FileWrite_def write_at_def logcall_def calm_def
    rename_dir_def x_rw1_eq x_os1_eq
  have h: "fst (Write ?e x_rw1 [98] x_os1) = (1, None)"
    unfolding W using ne by (simp add: defs)
  have j: "calls_since x_os1 (snd (snd (Write ?e x_rw1 [98] x_os1))) =
     [CallStat, CallClose, CallRename ''/tmp/x.log'' ?a,
      CallOpenFile ''/tmp/x.log'' {O_CREATE, O_WRONLY}, CallWrite [98]]"
    unfolding W calls_since_def using ne by (simp add: defs)
  have k: "content (snd (snd (Write ?e x_rw1 [98] x_os1))) ?a = Some (replicate 101 97)"
    unfolding W content_def using ne by (simp add: defs)
  have l: "content (snd (snd (Write ?e x_rw1 [98] x_os1))) ''/tmp/x.log'' = Some [98]"
    unfolding W content_def using ne by (simp add: defs)
  show ?thesis using a b c d e f g o h j k l by blast
qed

section \<open>Writing no bytes\<close>

lemma FileWrite_empty:
  assumes "fo = Some f" "\<not> closed f"
  shows "fst (FileWrite e fo [] w) = (0, None) \<and>
         names (snd (snd (FileWrite e fo [] w))) = names w \<and>
         inodes (snd (snd (FileWrite e fo [] w))) = inodes w \<and>
         fresh (snd (snd (FileWrite e fo [] w))) = fresh w \<and>
         calls (snd (snd (FileWrite e fo [] w))) = calls w @ [CallWrite []] \<and>
         (\<exists>f'. fst (snd (FileWrite e fo [] w)) = Some f' \<and> \<not> closed f')"
  using assms
  by (auto simp: FileWrite_def logcall_def write_at_def Let_def split: option.splits prod.splits)

lemma Write_empty_not_over:
  assumes u: "usable rw" and o: "\<not> over e rw w"
  shows "fst (Write e rw [] w) = (0, None) \<and>
         calls_since w (snd (snd (Write e rw [] w))) = [CallStat, CallWrite []] \<and>
         names (snd (snd (Write e rw [] w))) = names w \<and>
         inodes (snd (snd (Write e rw [] w))) = inodes w"
proof -
  from u obtain f where f: "file rw = Some f" "\<not> closed f"
    by (auto simp: usable_def split: option.splits)
  note F = FileWrite_empty [OF f, of e "logcall CallStat w"]
  show ?thesis
    using F by (simp add: Write_not_over [OF o] calls_since_def logcall_def)
qed

lemma Write_empty_over:
  assumes o: "over e rw w" and c: "consistent rw w"
    and r: "rename_fault e = None" and n: "open_fault e = None"
  shows "fst (Write e rw [] w) = (0, None) \<and>
         calls_since w (snd (snd (Write e rw [] w))) =
           [CallStat, CallClose,
            CallRename (filename rw) (archive_name (filename rw) (now e)),
            CallOpenFile (filename rw) {O_CREATE, O_WRONLY}, CallWrite []] \<and>
         content (snd (snd (Write e rw [] w))) (archive_name (filename rw) (now e)) =
           content w (filename rw) \<and>
         content (snd (snd (Write e rw [] w))) (filename rw) =
           (if names w (archive_name (filename rw) (now e)) = names w (filename rw)
            then content w (filename rw) else Some []) \<and>
         usable (fst (snd (Write e rw [] w)))"
proof -
  from o obtain f where f: "file rw = Some f" "\<not> closed f" "stat_fault e = None"
      "maxSize rw < int (length (inodes w (ino f)))"
    by (auto simp: over_iff)
  note F = consistent_file [OF c f(1)]
  have nm: "fname f = filename rw" and i: "names w (fname f) = Some (ino f)"
    and lt: "ino f < fresh w"
    using F f by auto
  let ?a = "archive_name (fname f) (now e)"
  have ne: "?a \<noteq> filename rw" using archive_name_neq [of "fname f" "now e"] nm by simp
  note R = Write_rotates [OF f r i n, of "[]"]
  show ?thesis
  proof (cases "names w ?a = names w (filename rw)")
    case False
    have rd: "rename_dir (names w) (fname f) ?a (ino f) = ((names w)(fname f := None))(?a \<mapsto> ino f)"
      using False nm i by (simp add: rename_dir_def)
    let ?w3 = "w\<lparr>names := ((names w)(fname f := None))(?a \<mapsto> ino f),
                    calls := calls w @ [CallStat, CallClose, CallRename (fname f) ?a]\<rparr>"
    let ?f2 = "\<lparr>fname = filename rw, ino = fresh w, appendmode = False, pos = 0, closed = False\<rparr>"
    let ?w4 = "?w3\<lparr>calls := calls ?w3 @ [CallOpenFile (filename rw) {O_CREATE, O_WRONLY}],
                    names := (names ?w3)(filename rw \<mapsto> fresh w),
                    inodes := (inodes w)(fresh w := []), fresh := Suc (fresh w)\<rparr>"
    have op: "OpenFile e (filename rw) {O_CREATE, O_WRONLY} ?w3 = (Some ?f2, None, ?w4)"
      using n ne nm by (simp add: OpenFile_def logcall_def Let_def)
    have cl: "\<not> closed ?f2" by simp
    note E = FileWrite_empty [OF refl cl, of e ?w4]
    have W: "Write e rw [] w =
        (fst (FileWrite e (Some ?f2) [] ?w4), rw\<lparr>file := fst (snd (FileWrite e (Some ?f2) [] ?w4))\<rparr>,
         snd (snd (FileWrite e (Some ?f2) [] ?w4)))"
      using R [unfolded rd] op by (simp add: Let_def)
    have 1: "fst (Write e rw [] w) = (0, None)" using E by (simp add: W)
    have 2: "calls_since w (snd (snd (Write e rw [] w))) =
             [CallStat, CallClose, CallRename (filename rw) (archive_name (filename rw) (now e)),
              CallOpenFile (filename rw) {O_CREATE, O_WRONLY}, CallWrite []]"
      using E nm by (simp add: W calls_since_def)
    have 3: "content (snd (snd (Write e rw [] w))) (archive_name (filename rw) (now e)) =
             content w (filename rw)"
      using E nm ne i lt by (simp add: W content_def)
    have 4: "content (snd (snd (Write e rw [] w))) (filename rw) = Some []"
      using E by (simp add: W content_def)
    have 5: "usable (fst (snd (Write e rw [] w)))"
      using E by (auto simp: W usable_def)
    show ?thesis using 1 2 3 4 5 False nm by simp
  next
    case True
    have lk: "names w ?a = Some (ino f)" using True nm i by simp
    have rd: "rename_dir (names w) (fname f) ?a (ino f) = names w"
      using lk by (simp add: rename_dir_def)
    let ?w3 = "w\<lparr>names := names w,
                    calls := calls w @ [CallStat, CallClose, CallRename (fname f) ?a]\<rparr>"
    let ?f2 = "\<lparr>fname = filename rw, ino = ino f, appendmode = False, pos = 0, closed = False\<rparr>"
    let ?w4 = "?w3\<lparr>calls := calls ?w3 @ [CallOpenFile (filename rw) {O_CREATE, O_WRONLY}]\<rparr>"
    have op: "OpenFile e (filename rw) {O_CREATE, O_WRONLY} ?w3 = (Some ?f2, None, ?w4)"
      using n nm i by (simp add: OpenFile_def logcall_def Let_def)
    have cl: "\<not> closed ?f2" by simp
    note E = FileWrite_empty [OF refl cl, of e ?w4]
    have W: "Write e rw [] w =
        (fst (FileWrite e (Some ?f2) [] ?w4), rw\<lparr>file := fst (snd (FileWrite e (Some ?f2) [] ?w4))\<rparr>,
         snd (snd (FileWrite e (Some ?f2) [] ?w4)))"
      using R [unfolded rd] op by (simp add: Let_def)
    have 1: "fst (Write e rw [] w) = (0, None)" using E by (simp add: W)
    have 2: "calls_since w (snd (snd (Write e rw [] w))) =
             [CallStat, CallClose, CallRename (filename rw) (archive_name (filename rw) (now e)),
              CallOpenFile (filename rw) {O_CREATE, O_WRONLY}, CallWrite []]"
      using E nm by (simp add: W calls_since_def)
    have 3: "content (snd (snd (Write e rw [] w))) (archive_name (filename rw) (now e)) =
             content w (filename rw)"
      using E nm i lk by (simp add: W content_def)
    have 4: "content (snd (snd (Write e rw [] w))) (filename rw) = content w (filename rw)"
      using E nm i by (simp add: W content_def)
    have 5: "usable (fst (snd (Write e rw [] w)))"
      using E by (auto simp: W usable_def)
    show ?thesis using 1 2 3 4 5 True nm by simp
  qed
qed

text \<open>
  C10. A \<open>Write\<close> of the empty buffer on an instance with a usable handle makes the size
  query first and rotates exactly when the size is over the threshold. Without rotation
  it returns 0 and no error and changes no name and no file. With a rotation whose rename
  and reopen do not fail it returns 0 and no error after the full sequence of close,
  rename, reopen and write, and the write changes no file: the archive holds what the file
  held, and the file under the name is the new, empty one, or still the old one with its
  content when the archive name was a link to it already and the rename changed nothing.
\<close>

theorem empty_write_still_rotates:
  "usable rw \<longrightarrow>
     take 1 (calls_since w (snd (snd (Write e rw [] w)))) = [CallStat] \<and>
     (rotated w (snd (snd (Write e rw [] w))) \<longleftrightarrow> over e rw w) \<and>
     (\<not> over e rw w \<longrightarrow>
        fst (Write e rw [] w) = (0, None) \<and>
        calls_since w (snd (snd (Write e rw [] w))) = [CallStat, CallWrite []] \<and>
        names (snd (snd (Write e rw [] w))) = names w \<and>
        inodes (snd (snd (Write e rw [] w))) = inodes w) \<and>
     (over e rw w \<and> consistent rw w \<and> rename_fault e = None \<and> open_fault e = None \<longrightarrow>
        fst (Write e rw [] w) = (0, None) \<and>
        calls_since w (snd (snd (Write e rw [] w))) =
          [CallStat, CallClose,
           CallRename (filename rw) (archive_name (filename rw) (now e)),
           CallOpenFile (filename rw) {O_CREATE, O_WRONLY}, CallWrite []] \<and>
        content (snd (snd (Write e rw [] w))) (archive_name (filename rw) (now e)) =
          content w (filename rw) \<and>
        content (snd (snd (Write e rw [] w))) (filename rw) =
          (if names w (archive_name (filename rw) (now e)) = names w (filename rw)
           then content w (filename rw) else Some []) \<and>
        usable (fst (snd (Write e rw [] w))))"
proof (intro impI conjI)
  assume u: "usable rw"
  show "take 1 (calls_since w (snd (snd (Write e rw [] w)))) = [CallStat]"
  proof (cases "over e rw w")
    case True
    then obtain f where f: "file rw = Some f" by (auto simp: over_iff)
    have "take 1 (take 3 (calls_since w (snd (snd (Write e rw [] w))))) = [CallStat]"
      by (simp add: Write_over_calls [OF True f])
    then show ?thesis by simp
  next
    case False
    then show ?thesis by (simp add: Write_not_over_calls)
  qed
  show "rotated w (snd (snd (Write e rw [] w))) \<longleftrightarrow> over e rw w"
    by (rule rotated_iff_over)
  {
    assume o: "\<not> over e rw w"
    note L = Write_empty_not_over [OF u o]
    show "fst (Write e rw [] w) = (0, None)" using L by blast
    show "calls_since w (snd (snd (Write e rw [] w))) = [CallStat, CallWrite []]" using L by blast
    show "names (snd (snd (Write e rw [] w))) = names w" using L by blast
    show "inodes (snd (snd (Write e rw [] w))) = inodes w" using L by blast
  }
  {
    assume a: "over e rw w \<and> consistent rw w \<and> rename_fault e = None \<and> open_fault e = None"
    then have L: "fst (Write e rw [] w) = (0, None) \<and>
         calls_since w (snd (snd (Write e rw [] w))) =
           [CallStat, CallClose,
            CallRename (filename rw) (archive_name (filename rw) (now e)),
            CallOpenFile (filename rw) {O_CREATE, O_WRONLY}, CallWrite []] \<and>
         content (snd (snd (Write e rw [] w))) (archive_name (filename rw) (now e)) =
           content w (filename rw) \<and>
         content (snd (snd (Write e rw [] w))) (filename rw) =
           (if names w (archive_name (filename rw) (now e)) = names w (filename rw)
            then content w (filename rw) else Some []) \<and>
         usable (fst (snd (Write e rw [] w)))"
      using Write_empty_over by blast
    show "fst (Write e rw [] w) = (0, None)" using L by blast
    show "calls_since w (snd (snd (Write e rw [] w))) =
          [CallStat, CallClose,
           CallRename (filename rw) (archive_name (filename rw) (now e)),
           CallOpenFile (filename rw) {O_CREATE, O_WRONLY}, CallWrite []]" using L by blast
    show "content (snd (snd (Write e rw [] w))) (archive_name (filename rw) (now e)) =
          content w (filename rw)" using L by blast
    show "content (snd (snd (Write e rw [] w))) (filename rw) =
          (if names w (archive_name (filename rw) (now e)) = names w (filename rw)
           then content w (filename rw) else Some [])" using L by blast
    show "usable (fst (snd (Write e rw [] w)))" using L by blast
  }
qed

lemma x_usable0: "usable x_rw0" by (simp add: usable_def x_rw0_eq)
lemma x_usable1: "usable x_rw1" by (simp add: usable_def x_rw1_eq)

theorem empty_write_still_rotates_witness:
  "usable x_rw1 \<and> over calm x_rw1 x_os1 \<and> consistent x_rw1 x_os1 \<and>
   rename_fault calm = None \<and> open_fault calm = None \<and>
   fst (Write calm x_rw1 [] x_os1) = (0, None) \<and>
   rotated x_os1 (snd (snd (Write calm x_rw1 [] x_os1))) \<and>
   content (snd (snd (Write calm x_rw1 [] x_os1))) ''/tmp/x-20240305-090807.log'' =
     Some (replicate 101 97) \<and>
   content (snd (snd (Write calm x_rw1 [] x_os1))) ''/tmp/x.log'' = Some [] \<and>
   over calm x_rw1 x_os_link \<and> consistent x_rw1 x_os_link \<and>
   fst (Write calm x_rw1 [] x_os_link) = (0, None) \<and>
   rotated x_os_link (snd (snd (Write calm x_rw1 [] x_os_link))) \<and>
   content (snd (snd (Write calm x_rw1 [] x_os_link))) ''/tmp/x.log'' = Some (replicate 101 97) \<and>
   usable x_rw0 \<and> \<not> over calm x_rw0 (snd x_new) \<and>
   fst (Write calm x_rw0 [] (snd x_new)) = (0, None) \<and>
   \<not> rotated (snd x_new) (snd (snd (Write calm x_rw0 [] (snd x_new)))) \<and>
   inodes (snd (snd (Write calm x_rw0 [] (snd x_new)))) = inodes (snd x_new)"
proof -
  have f: "rename_fault calm = None" "open_fault calm = None" by (simp_all add: calm_def)
  have sf: "stat_fault calm = None" by (simp add: calm_def)
  have ol: "over calm x_rw1 x_os_link" using sf by (rule x_link_over)
  have o0: "\<not> over calm x_rw0 (snd x_new)" by (simp add: over_iff x_rw0_eq x_new_eq)
  have fn: "filename x_rw1 = ''/tmp/x.log''" "now calm = march5"
    by (simp_all add: x_rw1_eq calm_def)
  have c0: "content x_os1 ''/tmp/x.log'' = Some (replicate 101 97)"
    by (simp add: content_def x_os1_eq)
  have cl: "content x_os_link ''/tmp/x.log'' = Some (replicate 101 97)"
    by (simp add: content_def x_link_names x_os1_eq)
  have mv: "names x_os1 (archive_name (filename x_rw1) (now calm)) \<noteq> names x_os1 (filename x_rw1)"
    by (simp add: fn x_archive x_os1_eq)
  have lk: "names x_os_link (archive_name (filename x_rw1) (now calm)) = names x_os_link (filename x_rw1)"
    by (simp add: fn x_archive x_link_names)
  note T1 = empty_write_still_rotates [of x_rw1 x_os1 calm]
  note TL = empty_write_still_rotates [of x_rw1 x_os_link calm]
  note T0 = empty_write_still_rotates [of x_rw0 "snd x_new" calm]
  have a: "fst (Write calm x_rw1 [] x_os1) = (0, None)"
    using T1 x_usable1 x_over x_consistent1 f by blast
  have b: "rotated x_os1 (snd (snd (Write calm x_rw1 [] x_os1)))"
    using T1 x_usable1 x_over by blast
  have "content (snd (snd (Write calm x_rw1 [] x_os1))) (archive_name (filename x_rw1) (now calm)) =
          content x_os1 (filename x_rw1)"
    using T1 x_usable1 x_over x_consistent1 f by blast
  then have c: "content (snd (snd (Write calm x_rw1 [] x_os1))) ''/tmp/x-20240305-090807.log'' =
     Some (replicate 101 97)"
    by (simp add: fn x_archive c0)
  have "content (snd (snd (Write calm x_rw1 [] x_os1))) (filename x_rw1) =
      (if names x_os1 (archive_name (filename x_rw1) (now calm)) = names x_os1 (filename x_rw1)
       then content x_os1 (filename x_rw1) else Some [])"
    using T1 x_usable1 x_over x_consistent1 f by blast
  then have d: "content (snd (snd (Write calm x_rw1 [] x_os1))) ''/tmp/x.log'' = Some []"
    using mv by (simp add: fn)
  have al: "fst (Write calm x_rw1 [] x_os_link) = (0, None)"
    using TL x_usable1 ol x_link_consistent f by blast
  have bl: "rotated x_os_link (snd (snd (Write calm x_rw1 [] x_os_link)))"
    using TL x_usable1 ol by blast
  have "content (snd (snd (Write calm x_rw1 [] x_os_link))) (filename x_rw1) =
      (if names x_os_link (archive_name (filename x_rw1) (now calm)) = names x_os_link (filename x_rw1)
       then content x_os_link (filename x_rw1) else Some [])"
    using TL x_usable1 ol x_link_consistent f by blast
  then have dl: "content (snd (snd (Write calm x_rw1 [] x_os_link))) ''/tmp/x.log'' =
      Some (replicate 101 97)"
    using lk cl by (simp add: fn)
  have e: "fst (Write calm x_rw0 [] (snd x_new)) = (0, None)"
    using T0 x_usable0 o0 by blast
  have g: "\<not> rotated (snd x_new) (snd (snd (Write calm x_rw0 [] (snd x_new))))"
    using T0 x_usable0 o0 by blast
  have h: "inodes (snd (snd (Write calm x_rw0 [] (snd x_new)))) = inodes (snd x_new)"
    using T0 x_usable0 o0 by blast
  show ?thesis
    using x_usable1 x_over x_consistent1 f a b c d ol x_link_consistent al bl dl x_usable0 o0 e g h
    by blast
qed

theorem scenario_x_log_witness:
  "fst (Write calm x_rw1 [98] x_os1) = (1, None) \<and>
   content (snd (snd (Write calm x_rw1 [98] x_os1))) ''/tmp/x-20240305-090807.log''
     = Some (replicate 101 97) \<and>
   content (snd (snd (Write calm x_rw1 [98] x_os1))) ''/tmp/x.log'' = Some [98]"
proof -
  have c: "calm\<lparr>now := march5\<rparr> = calm" by (simp add: calm_def)
  show ?thesis using scenario_x_log [of march5] by (simp add: c Format_march5)
qed

section \<open>Two callers at once\<close>

lemma steps_Write:
  "steps 5 e p AtStat rw w =
     (Returned (fst (fst (Write e rw p w))) (snd (fst (Write e rw p w))),
      fst (snd (Write e rw p w)), snd (snd (Write e rw p w)))"
  by (simp add: eval_nat_numeral step_def Write_def Let_def
        split: prod.splits sum.splits option.splits)

lemma step_ignores_mutex:
  "step e p c (rw\<lparr>mutex := b\<rparr>) w =
     (case step e p c rw w of (c', rw', w') \<Rightarrow> (c', rw'\<lparr>mutex := b\<rparr>, w'))"
  by (simp add: step_def Let_def split: pc.splits prod.splits sum.splits option.splits)

lemma x_racing_eq:
  "fst x_racing = (Returned 1 None, Returned 1 None) \<and>
   mutex (fst (snd x_racing)) = False \<and>
   calls (snd (snd x_racing)) = calls x_os1 @
     [CallStat, CallStat,
      CallClose, CallRename ''/tmp/x.log'' ''/tmp/x-20240305-090807.log'',
      CallOpenFile ''/tmp/x.log'' {O_CREATE, O_WRONLY}, CallWrite [98],
      CallClose, CallRename ''/tmp/x.log'' ''/tmp/x-20240305-090807.log'',
      CallOpenFile ''/tmp/x.log'' {O_CREATE, O_WRONLY}, CallWrite [99]] \<and>
   names (snd (snd x_racing)) ''/tmp/x-20240305-090807.log'' = Some 1 \<and>
   names (snd (snd x_racing)) ''/tmp/x.log'' = Some 2 \<and>
   inodes (snd (snd x_racing)) 1 = [98] \<and>
   inodes (snd (snd x_racing)) 2 = [99]"
  by (simp add: x_racing_def both_stat_first_def step_def Stat_def Close_def Name_def Rename_def
        OpenFile_def FileWrite_def write_at_def logcall_def x_archive Let_def calm_def
        rename_dir_def x_rw1_eq x_os1_eq)

lemma x_serial_eq:
  "fst x_serial = [(1, None), (1, None)] \<and>
   calls (snd (snd x_serial)) = calls x_os1 @
     [CallStat, CallClose, CallRename ''/tmp/x.log'' ''/tmp/x-20240305-090807.log'',
      CallOpenFile ''/tmp/x.log'' {O_CREATE, O_WRONLY}, CallWrite [98],
      CallStat, CallWrite [99]] \<and>
   names (snd (snd x_serial)) ''/tmp/x-20240305-090807.log'' = Some 0 \<and>
   names (snd (snd x_serial)) ''/tmp/x.log'' = Some 1 \<and>
   inodes (snd (snd x_serial)) 0 = replicate 101 97 \<and>
   inodes (snd (snd x_serial)) 1 = [98, 99]"
  by (simp add: x_serial_def Write_def Stat_def Close_def Name_def Rename_def
        OpenFile_def FileWrite_def write_at_def logcall_def x_archive Let_def calm_def
        rename_dir_def x_rw1_eq x_os1_eq)

lemma x_serial_rev_eq:
  "fst x_serial_rev = [(1, None), (1, None)] \<and>
   names (snd (snd x_serial_rev)) ''/tmp/x-20240305-090807.log'' = Some 0 \<and>
   names (snd (snd x_serial_rev)) ''/tmp/x.log'' = Some 1 \<and>
   inodes (snd (snd x_serial_rev)) 0 = replicate 101 97 \<and>
   inodes (snd (snd x_serial_rev)) 1 = [99, 98]"
  by (simp add: x_serial_rev_def Write_def Stat_def Close_def Name_def Rename_def
        OpenFile_def FileWrite_def write_at_def logcall_def x_archive Let_def calm_def
        rename_dir_def x_rw1_eq x_os1_eq)

text \<open>
  C1, where the code departs from it. No step of \<open>Write\<close> reads or sets the mutex: a
  step runs the same whether the mutex is held or not and leaves it as it is, and five
  steps from the size query are the whole of \<open>Write\<close>. So two callers interleave. When
  both make their size query on the file of 101 bytes before either goes on, both find it
  over the threshold and both rotate, and both return success: the second rename puts the
  file holding \<^verbatim>\<open>'b'\<close> under the archive name in place of the file holding the 101
  bytes, which no name reaches any more. Run one after the other, in either order, the same
  two calls rotate once and the archive keeps the 101 bytes.
\<close>

theorem unlocked_writes_race:
  "(\<forall>b. step e p c (rw\<lparr>mutex := b\<rparr>) w =
        (case step e p c rw w of (c', rw', w') \<Rightarrow> (c', rw'\<lparr>mutex := b\<rparr>, w'))) \<and>
   steps 5 e p AtStat rw w =
     (Returned (fst (fst (Write e rw p w))) (snd (fst (Write e rw p w))),
      fst (snd (Write e rw p w)), snd (snd (Write e rw p w))) \<and>
   fst x_racing = (Returned 1 None, Returned 1 None) \<and>
   mutex (fst (snd x_racing)) = False \<and>
   calls_since x_os1 (snd (snd x_racing)) =
     [CallStat, CallStat,
      CallClose, CallRename ''/tmp/x.log'' ''/tmp/x-20240305-090807.log'',
      CallOpenFile ''/tmp/x.log'' {O_CREATE, O_WRONLY}, CallWrite [98],
      CallClose, CallRename ''/tmp/x.log'' ''/tmp/x-20240305-090807.log'',
      CallOpenFile ''/tmp/x.log'' {O_CREATE, O_WRONLY}, CallWrite [99]] \<and>
   content x_os1 ''/tmp/x.log'' = Some (replicate 101 97) \<and>
   content (snd (snd x_racing)) ''/tmp/x-20240305-090807.log'' = Some [98] \<and>
   content (snd (snd x_racing)) ''/tmp/x.log'' = Some [99] \<and>
   content (snd (snd x_serial)) ''/tmp/x-20240305-090807.log'' = Some (replicate 101 97) \<and>
   content (snd (snd x_serial)) ''/tmp/x.log'' = Some [98, 99] \<and>
   content (snd (snd x_serial_rev)) ''/tmp/x-20240305-090807.log'' = Some (replicate 101 97) \<and>
   content (snd (snd x_serial_rev)) ''/tmp/x.log'' = Some [99, 98]"
proof (intro conjI allI)
  fix b
  show "step e p c (rw\<lparr>mutex := b\<rparr>) w =
        (case step e p c rw w of (c', rw', w') \<Rightarrow> (c', rw'\<lparr>mutex := b\<rparr>, w'))"
    by (rule step_ignores_mutex)
next
  show "steps 5 e p AtStat rw w =
     (Returned (fst (fst (Write e rw p w))) (snd (fst (Write e rw p w))),
      fst (snd (Write e rw p w)), snd (snd (Write e rw p w)))"
    by (rule steps_Write)
next
  show "fst x_racing = (Returned 1 None, Returned 1 None)" using x_racing_eq by blast
  show "mutex (fst (snd x_racing)) = False" using x_racing_eq by blast
  show "calls_since x_os1 (snd (snd x_racing)) =
     [CallStat, CallStat,
      CallClose, CallRename ''/tmp/x.log'' ''/tmp/x-20240305-090807.log'',
      CallOpenFile ''/tmp/x.log'' {O_CREATE, O_WRONLY}, CallWrite [98],
      CallClose, CallRename ''/tmp/x.log'' ''/tmp/x-20240305-090807.log'',
      CallOpenFile ''/tmp/x.log'' {O_CREATE, O_WRONLY}, CallWrite [99]]"
    using x_racing_eq by (simp add: calls_since_def)
  show "content x_os1 ''/tmp/x.log'' = Some (replicate 101 97)"
    by (simp add: content_def x_os1_eq)
  show "content (snd (snd x_racing)) ''/tmp/x-20240305-090807.log'' = Some [98]"
    using x_racing_eq by (simp add: content_def)
  show "content (snd (snd x_racing)) ''/tmp/x.log'' = Some [99]"
    using x_racing_eq by (simp add: content_def)
  show "content (snd (snd x_serial)) ''/tmp/x-20240305-090807.log'' = Some (replicate 101 97)"
    using x_serial_eq by (simp add: content_def)
  show "content (snd (snd x_serial)) ''/tmp/x.log'' = Some [98, 99]"
    using x_serial_eq by (simp add: content_def)
  show "content (snd (snd x_serial_rev)) ''/tmp/x-20240305-090807.log'' = Some (replicate 101 97)"
    using x_serial_rev_eq by (simp add: content_def)
  show "content (snd (snd x_serial_rev)) ''/tmp/x.log'' = Some [99, 98]"
    using x_serial_rev_eq by (simp add: content_def)
qed

end
